theory Spec2Isabelle
  imports Complex_Main "HOL-Library.Word"
begin

section \<open>Binary floating point\<close>

text \<open>
  A \<^verbatim>\<open>float\<close> or \<^verbatim>\<open>double\<close> value is modelled by the real number it denotes. Every
  floating-point operation of the sources is the exact operation on reals followed by
  rounding to the nearest value with \<open>p\<close> significant bits, ties to the even significand
  (IEEE 754 round-to-nearest-even): \<open>p = 24\<close> for single and \<open>p = 53\<close> for double
  precision. This rounding has no exponent range: it is the rounding of the format as long
  as no result leaves its normal range, which holds in the sketch (sensor counts of 16 bits,
  channel levels of 8 bits) and for the lamp ratios (quotients of 32-bit integers).
  Infinities and NaN are not modelled.
\<close>

definition rne :: "real \<Rightarrow> int" where
  "rne q = (let f = \<lfloor>q\<rfloor>; d = q - of_int f
            in if d < 1 / 2 then f else if 1 / 2 < d then f + 1
               else if even f then f else f + 1)"

text \<open>\<open>expo x\<close> is the binary exponent of \<open>x > 0\<close>: \<open>2 ^ expo x \<le> x < 2 ^ (expo x + 1)\<close>.\<close>

function expo_up :: "real \<Rightarrow> int" where
  "expo_up x = (if x < 2 then 0 else 1 + expo_up (x / 2))"
  by pat_completeness auto
termination
proof (relation "measure (\<lambda>x. nat \<lceil>x\<rceil>)")
  show "wf (measure (\<lambda>x::real. nat \<lceil>x\<rceil>))" by simp
next
  fix x :: real
  assume "\<not> x < 2"
  then have c: "2 \<le> \<lceil>x\<rceil>" by (simp add: le_ceiling_iff)
  then have "(2::real) \<le> of_int \<lceil>x\<rceil>" by linarith
  then have "x / 2 \<le> of_int \<lceil>x\<rceil> - 1"
    using le_of_int_ceiling [of x] by linarith
  then have "x / 2 \<le> of_int (\<lceil>x\<rceil> - 1)" by simp
  then have "\<lceil>x / 2\<rceil> \<le> \<lceil>x\<rceil> - 1" by (rule ceiling_le)
  with c show "(x / 2, x) \<in> measure (\<lambda>x. nat \<lceil>x\<rceil>)" by simp
qed

function expo_down :: "real \<Rightarrow> int" where
  "expo_down x = (if x \<le> 0 \<or> 1 \<le> x then 0 else expo_down (2 * x) - 1)"
  by pat_completeness auto
termination
proof (relation "measure (\<lambda>x. nat \<lceil>1 / x\<rceil>)")
  show "wf (measure (\<lambda>x::real. nat \<lceil>1 / x\<rceil>))" by simp
next
  fix x :: real
  assume "\<not> (x \<le> 0 \<or> 1 \<le> x)"
  then have x: "0 < x" "x < 1" by simp_all
  define y where "y = 1 / x"
  have y: "1 < y" using x by (simp add: y_def)
  have c: "2 \<le> \<lceil>y\<rceil>" using y by (simp add: le_ceiling_iff)
  from c have "(2::real) \<le> of_int \<lceil>y\<rceil>" by linarith
  then have "y / 2 \<le> of_int \<lceil>y\<rceil> - 1"
    using le_of_int_ceiling [of y] by linarith
  then have "y / 2 \<le> of_int (\<lceil>y\<rceil> - 1)" by simp
  then have "\<lceil>y / 2\<rceil> \<le> \<lceil>y\<rceil> - 1" by (rule ceiling_le)
  then have "\<lceil>y / 2\<rceil> < \<lceil>y\<rceil>" by simp
  moreover have "1 / (2 * x) = y / 2" by (simp add: y_def)
  ultimately have "\<lceil>1 / (2 * x)\<rceil> < \<lceil>1 / x\<rceil>" by (simp only: y_def)
  moreover have "0 < \<lceil>1 / x\<rceil>" using c by (simp only: y_def)
  ultimately show "(2 * x, x) \<in> measure (\<lambda>x. nat \<lceil>1 / x\<rceil>)" by simp
qed

declare expo_up.simps [simp del] expo_down.simps [simp del]

definition expo :: "real \<Rightarrow> int" where
  "expo x = (if 1 \<le> x then expo_up x else expo_down x)"

definition pow2 :: "int \<Rightarrow> real" where
  "pow2 e = (if 0 \<le> e then 2 ^ nat e else 1 / 2 ^ nat (- e))"

definition flp :: "nat \<Rightarrow> real \<Rightarrow> real" where
  "flp p x = (if x = 0 then 0
              else let u = pow2 (expo \<bar>x\<bar> - int p + 1) in of_int (rne (x / u)) * u)"

definition f32 :: "real \<Rightarrow> real" where
  "f32 = flp 24"

definition f64 :: "real \<Rightarrow> real" where
  "f64 = flp 53"

text \<open>
  Single precision with its subnormal range: the spacing of the values never falls below
  \<open>2\<^sup>-\<^sup>1\<^sup>4\<^sup>9\<close>, so a result below \<open>2\<^sup>-\<^sup>1\<^sup>2\<^sup>6\<close> is rounded to a multiple of \<open>2\<^sup>-\<^sup>1\<^sup>4\<^sup>9\<close>
  (gradual underflow). From \<open>2\<^sup>-\<^sup>1\<^sup>2\<^sup>6\<close> upwards it is \<^const>\<open>f32\<close>. It is used where a
  computation can reach that range.
\<close>

definition float32 :: "real \<Rightarrow> real" where
  "float32 x = (if x = 0 then 0
                else let u = pow2 (max (expo \<bar>x\<bar> - 23) (- 149)) in of_int (rne (x / u)) * u)"

text \<open>Conversion of a floating-point value to an integer type discards the fraction.\<close>

definition trunc :: "real \<Rightarrow> int" where
  "trunc x = (if 0 \<le> x then \<lfloor>x\<rfloor> else \<lceil>x\<rceil>)"

section \<open>The Arduino sketch \<^verbatim>\<open>AdaptiveDualLED_TCS34725.ino\<close>\<close>

text \<open>
  The sketch targets an 8-bit Arduino board (PWM on pins 3, 9 and 10, 8-bit duty cycle), where
  \<^verbatim>\<open>double\<close> is the same 32-bit format as \<^verbatim>\<open>float\<close>; every floating-point operation of
  the sketch therefore rounds with \<^const>\<open>f32\<close>. Integers of 16 bits convert to
  \<^verbatim>\<open>float\<close> without rounding, so such conversions are \<^const>\<open>of_int\<close>. Channel levels are
  \<^verbatim>\<open>int\<close>; no integer expression of the sketch leaves the 16-bit range for levels in
  \<open>[0, 255]\<close>, so they are modelled by \<^typ>\<open>int\<close>.
\<close>

subsection \<open>Macros of \<^verbatim>\<open>Arduino.h\<close>\<close>

text \<open>
  \<^verbatim>\<open>#define constrain(amt,low,high) ((amt)<(low)?(low):((amt)>(high)?(high):(amt)))\<close>
\<close>

definition constrain :: "int \<Rightarrow> int \<Rightarrow> int \<Rightarrow> int" where
  "constrain amt low high = (if amt < low then low else if amt > high then high else amt)"

text \<open>
  \<^verbatim>\<open>#define round(x) ((x)>=0?(long)((x)+0.5):(long)((x)-0.5))\<close>
\<close>

definition round_macro :: "real \<Rightarrow> int" where
  "round_macro x = (if x \<ge> 0 then trunc (f32 (x + 1 / 2)) else trunc (f32 (x - 1 / 2)))"

subsection \<open>Settings and state\<close>

definition targetYellowRatio :: real where
  "targetYellowRatio = f32 (6 / 10)"

definition L_min :: real where
  "L_min = 150"

definition L_max :: real where
  "L_max = 1000"

definition maxLEDIntensity :: int where
  "maxLEDIntensity = 255"

definition default_k :: int where
  "default_k = 50"

text \<open>The sensor's raw counts, as \<^verbatim>\<open>getRawData\<close> delivers them.\<close>

record raw_data =
  rawR :: "16 word"
  rawG :: "16 word"
  rawB :: "16 word"
  rawC :: "16 word"

text \<open>The three global variables that survive from one run of \<^verbatim>\<open>loop\<close> to the next.\<close>

record memory =
  prevYellowLED :: int
  prevWhiteLED :: int
  inFallbackMode :: bool

text \<open>The two duty cycles written by \<^verbatim>\<open>analogWrite\<close>.\<close>

record led_output =
  yellowLED :: int
  whiteLED :: int

text \<open>A level that \<^verbatim>\<open>analogWrite\<close> accepts as an 8-bit duty cycle.\<close>

definition level_ok :: "int \<Rightarrow> bool" where
  "level_ok v = (0 \<le> v \<and> v \<le> maxLEDIntensity)"

subsection \<open>One run of \<^verbatim>\<open>loop\<close>\<close>

definition ambientWhite :: "raw_data \<Rightarrow> real" where
  "ambientWhite d = of_int (uint (min (rawR d) (min (rawG d) (rawB d))))"

definition ambientYellow :: "raw_data \<Rightarrow> real" where
  "ambientYellow d = f32 (f32 (of_int (uint (rawR d)) + of_int (uint (rawG d))) / 2)"

definition YOI :: "raw_data \<Rightarrow> memory \<Rightarrow> real" where
  "YOI d m = f32 (of_int (prevYellowLED m) + ambientYellow d)"

definition WOI :: "raw_data \<Rightarrow> memory \<Rightarrow> real" where
  "WOI d m = f32 (of_int (prevWhiteLED m) + ambientWhite d)"

definition total :: "raw_data \<Rightarrow> memory \<Rightarrow> real" where
  "total d m = f32 (YOI d m + WOI d m)"

definition currentYellowRatio :: "raw_data \<Rightarrow> memory \<Rightarrow> real" where
  "currentYellowRatio d m = (if total d m > 0 then f32 (YOI d m / total d m) else - 1)"

definition ambientTotal :: "raw_data \<Rightarrow> real" where
  "ambientTotal d = f32 (ambientYellow d + ambientWhite d)"

definition hysteresis :: real where
  "hysteresis = 2"

definition isTooDark :: "raw_data \<Rightarrow> bool" where
  "isTooDark d = (ambientTotal d < f32 (L_min - hysteresis))"

definition isTooBright :: "raw_data \<Rightarrow> bool" where
  "isTooBright d = (ambientTotal d > f32 (L_max + hysteresis))"

text \<open>Mode 1, complete darkness: the two products are converted to \<^verbatim>\<open>int\<close> unrounded.\<close>

definition darkness_fallback :: "int \<times> int" where
  "darkness_fallback =
     (trunc (f32 (of_int default_k * targetYellowRatio)),
      trunc (f32 (of_int default_k * f32 (1 - targetYellowRatio))))"

text \<open>Modes 2 and 3, too dark or too bright.\<close>

definition scalingFactor :: real where
  "scalingFactor = f32 (9 / 10)"

definition downscale :: "int \<Rightarrow> int" where
  "downscale v = constrain (round_macro (f32 (of_int v * scalingFactor))) 0 maxLEDIntensity"

definition led_ratio :: "int \<Rightarrow> int \<Rightarrow> real" where
  "led_ratio y w = (if y + w > 0 then f32 (of_int y / of_int (y + w)) else - 1)"

text \<open>
  The \<^verbatim>\<open>while\<close> loop that holds the ratio in the band; \<open>None\<close> is a loop that never
  ends.
\<close>

partial_function (option) ratio_loop :: "int \<Rightarrow> int \<Rightarrow> real \<Rightarrow> (int \<times> int) option" where
  "ratio_loop y w ratio =
     (if ratio < f32 (58 / 100) \<or> ratio > f32 (62 / 100) then
        (if ratio > f32 (62 / 100) then
           ratio_loop (downscale y) w (led_ratio (downscale y) w)
         else if ratio < f32 (58 / 100) then
           ratio_loop y (downscale w) (led_ratio y (downscale w))
         else ratio_loop y w (led_ratio y w))
      else Some (y, w))"

declare ratio_loop.simps [code]

definition cutoff :: "int \<times> int \<Rightarrow> int \<times> int" where
  "cutoff p = (let p1 = (if fst p \<le> 5 then (0, 0) else p)
               in if snd p1 \<le> 5 then (0, 0) else p1)"

definition dark_or_bright :: "memory \<Rightarrow> (int \<times> int) option" where
  "dark_or_bright m =
     (let y = downscale (prevYellowLED m); w = downscale (prevWhiteLED m)
      in map_option cutoff (ratio_loop y w (led_ratio y w)))"

text \<open>Mode 4, inside the comfort band.\<close>

definition comfort_band :: "raw_data \<Rightarrow> memory \<Rightarrow> int \<times> int" where
  "comfort_band d m =
     (let cyr = currentYellowRatio d m in
      if cyr < f32 (58 / 100) then
        (let adjust = f32 (f32 (f32 (1 / 10) * f32 (f32 (6 / 10) - cyr)) * of_int maxLEDIntensity)
         in (constrain (prevYellowLED m + round_macro adjust) 0 maxLEDIntensity, prevWhiteLED m))
      else if cyr > f32 (62 / 100) then
        (let adjust = f32 (f32 (f32 (1 / 10) * f32 (cyr - f32 (6 / 10))) * of_int maxLEDIntensity)
         in (prevYellowLED m, constrain (prevWhiteLED m + round_macro adjust) 0 maxLEDIntensity))
      else (prevYellowLED m, prevWhiteLED m))"

text \<open>
  The body of \<^verbatim>\<open>loop\<close>: the new levels with the fallback flag as the mode leaves it, then
  the outputs, the stored levels and the exit from fallback mode. The flag \<open>tooBright\<close> is
  \<^verbatim>\<open>isTooBright\<close> after the override; \<^verbatim>\<open>isComfortable\<close> is written by the sketch and never
  read.
\<close>

definition loop :: "raw_data \<Rightarrow> memory \<Rightarrow> (led_output \<times> memory) option" where
  "loop d m =
     (let cyr = currentYellowRatio d m;
          tooDark = isTooDark d;
          tooBright = (if inFallbackMode m \<and> isTooBright d then False else isTooBright d);
          mode = (if cyr = - 1 then Some (darkness_fallback, True)
                  else if tooDark \<or> tooBright then
                    map_option (\<lambda>p. (p, inFallbackMode m)) (dark_or_bright m)
                  else Some (comfort_band d m, inFallbackMode m))
      in case mode of
           None \<Rightarrow> None
         | Some ((newYellowLED, newWhiteLED), fallback) \<Rightarrow>
             Some (\<lparr>yellowLED = newYellowLED, whiteLED = newWhiteLED\<rparr>,
                   \<lparr>prevYellowLED = newYellowLED, prevWhiteLED = newWhiteLED,
                    inFallbackMode = (if \<not> tooDark \<and> cyr \<noteq> - 1 then False else fallback)\<rparr>))"

text \<open>Successive runs of \<^verbatim>\<open>loop\<close>, one for each sensor reading, collecting the outputs.\<close>

fun loops :: "raw_data list \<Rightarrow> memory \<Rightarrow> (led_output list \<times> memory) option" where
  "loops [] m = Some ([], m)"
| "loops (d # ds) m =
     (case loop d m of
        None \<Rightarrow> None
      | Some (out, m') \<Rightarrow>
          (case loops ds m' of None \<Rightarrow> None | Some (outs, m'') \<Rightarrow> Some (out # outs, m'')))"

section \<open>The SystemC model \<^verbatim>\<open>Specification.cpp\<close>\<close>

text \<open>
  The simulation runs on a host where \<^verbatim>\<open>float\<close> is single and \<^verbatim>\<open>double\<close> is double
  precision, and \<^verbatim>\<open>int\<close> has 32 bits; an \<^verbatim>\<open>int\<close> converted to \<^verbatim>\<open>float\<close> is rounded.
\<close>

definition lux_to_amps :: real where
  "lux_to_amps = f32 (1 / 1000)"

definition warm_temp :: int where
  "warm_temp = 2700"

definition cool_temp :: int where
  "cool_temp = 6500"

text \<open>
  The ratio computation of \<^verbatim>\<open>LampModule::adjust_lamps\<close>, as (\<^verbatim>\<open>white_ratio\<close>,
  \<^verbatim>\<open>yellow_ratio\<close>), with the two temperature limits as arguments.
\<close>

definition lamp_ratios :: "int \<Rightarrow> int \<Rightarrow> int \<Rightarrow> real \<times> real" where
  "lamp_ratios temp_target warm cool =
     (if temp_target \<le> warm then (0, 1)
      else if temp_target \<ge> cool then (1, 0)
      else (let factor = f32 (f32 (of_int (temp_target - warm)) / f32 (of_int (cool - warm)))
            in (factor, f32 (f64 (1 - factor)))))"

text \<open>
  \<^verbatim>\<open>adjust_lamps\<close> returns (\<^verbatim>\<open>white_current\<close>, \<^verbatim>\<open>yellow_current\<close>). The target
  intensity is the value of a \<^verbatim>\<open>float\<close> port, a finite single-precision number of any
  magnitude: the products can underflow and are rounded with \<^const>\<open>float32\<close>; they cannot
  overflow, the ratios being at most 1 and \<^verbatim>\<open>lux_to_amps\<close> below 1.
\<close>

definition adjust_lamps :: "real \<Rightarrow> int \<Rightarrow> real \<times> real" where
  "adjust_lamps total_intensity temp_target =
     (let (white_ratio, yellow_ratio) = lamp_ratios temp_target warm_temp cool_temp
      in (float32 (float32 (white_ratio * total_intensity) * lux_to_amps),
          float32 (float32 (yellow_ratio * total_intensity) * lux_to_amps)))"

text \<open>
  \<^verbatim>\<open>ECRL_System::control_logic\<close> returns the two values it passes to the lamp module,
  (\<^verbatim>\<open>desired_lux\<close>, \<^verbatim>\<open>measured_temp\<close>); the two bounds are local variables with fixed
  values.
\<close>

definition control_logic :: "real \<Rightarrow> int \<Rightarrow> real \<times> int" where
  "control_logic measured_lux measured_temp =
     (let min_lux = 200;
          max_lux = 1300;
          desired_lux = (if measured_lux < min_lux then min_lux
                         else if measured_lux > max_lux then max_lux
                         else measured_lux)
      in (desired_lux, measured_temp))"

section \<open>Evaluation\<close>

text \<open>
  Concrete values are computed by unfolding the rounding function; the constants of the
  sketch come out as the familiar single-precision values, for instance \<^verbatim>\<open>0.6f\<close> as
  \<open>0.60000002384185791015625\<close>.
\<close>

lemmas fl_eval = f32_def f64_def float32_def flp_def expo_def expo_up.simps expo_down.simps pow2_def
  rne_def trunc_def Let_def

lemma f32_consts:
  "f32 (58 / 100) = 9730785 / 16777216"
  "f32 (62 / 100) = 5200937 / 8388608"
  "f32 (6 / 10) = 5033165 / 8388608"
  "f32 (1 / 10) = 13421773 / 134217728"
  "f32 (9 / 10) = 7549747 / 8388608"
  by (simp_all add: fl_eval)

lemma thresholds: "f32 (L_min - hysteresis) = 148" "f32 (L_max + hysteresis) = 1002"
  by (simp_all add: L_min_def L_max_def hysteresis_def fl_eval)

lemma darkness_fallback_eq: "darkness_fallback = (30, 19)"
  by (simp add: darkness_fallback_def default_k_def targetYellowRatio_def fl_eval)

section \<open>Levels stay in range\<close>

lemma level_ok_constrain: "level_ok (constrain amt 0 maxLEDIntensity)"
  by (simp add: level_ok_def constrain_def maxLEDIntensity_def)

lemma level_ok_downscale: "level_ok (downscale v)"
  by (simp add: downscale_def level_ok_constrain)

lemma level_ok_0: "level_ok 0"
  by (simp add: level_ok_def maxLEDIntensity_def)

lemma ratio_loop_level_ok_aux:
  assumes "ratio_loop y w ratio = Some p"
  shows "level_ok y \<longrightarrow> level_ok w \<longrightarrow> level_ok (fst p) \<and> level_ok (snd p)"
proof (rule ratio_loop.raw_induct
    [where P = "\<lambda>y w ratio p. level_ok y \<longrightarrow> level_ok w \<longrightarrow> level_ok (fst p) \<and> level_ok (snd p)",
      OF _ assms])
  fix rec :: "int \<Rightarrow> int \<Rightarrow> real \<Rightarrow> (int \<times> int) option" and y w ratio p
  assume IH: "\<And>y w ratio p. rec y w ratio = Some p \<Longrightarrow>
      level_ok y \<longrightarrow> level_ok w \<longrightarrow> level_ok (fst p) \<and> level_ok (snd p)"
    and body: "(if ratio < f32 (58 / 100) \<or> f32 (62 / 100) < ratio
      then if f32 (62 / 100) < ratio
           then rec (downscale y) w (led_ratio (downscale y) w)
           else if ratio < f32 (58 / 100)
                then rec y (downscale w) (led_ratio y (downscale w))
                else rec y w (led_ratio y w)
      else Some (y, w)) = Some p"
  show "level_ok y \<longrightarrow> level_ok w \<longrightarrow> level_ok (fst p) \<and> level_ok (snd p)"
    using body IH level_ok_downscale by (auto split: if_splits)
qed

lemma ratio_loop_level_ok:
  assumes "ratio_loop y w ratio = Some p" "level_ok y" "level_ok w"
  shows "level_ok (fst p) \<and> level_ok (snd p)"
  using ratio_loop_level_ok_aux [OF assms(1)] assms(2,3) by simp

lemma cutoff_level_ok:
  "level_ok (fst p) \<Longrightarrow> level_ok (snd p) \<Longrightarrow> level_ok (fst (cutoff p)) \<and> level_ok (snd (cutoff p))"
  by (simp add: cutoff_def Let_def level_ok_0)

lemma dark_or_bright_level_ok:
  assumes "dark_or_bright m = Some p"
  shows "level_ok (fst p) \<and> level_ok (snd p)"
proof -
  from assms obtain q where q: "ratio_loop (downscale (prevYellowLED m)) (downscale (prevWhiteLED m))
      (led_ratio (downscale (prevYellowLED m)) (downscale (prevWhiteLED m))) = Some q"
    and p: "p = cutoff q"
    by (auto simp: dark_or_bright_def Let_def)
  from ratio_loop_level_ok [OF q level_ok_downscale level_ok_downscale]
  show ?thesis unfolding p by (simp add: cutoff_level_ok)
qed

lemma comfort_band_level_ok:
  assumes "level_ok (prevYellowLED m)" "level_ok (prevWhiteLED m)"
  shows "level_ok (fst (comfort_band d m)) \<and> level_ok (snd (comfort_band d m))"
  using assms by (simp add: comfort_band_def Let_def level_ok_constrain)

lemma darkness_fallback_level_ok:
  "level_ok (fst darkness_fallback) \<and> level_ok (snd darkness_fallback)"
  by (simp add: darkness_fallback_eq level_ok_def maxLEDIntensity_def)

lemma loop_level_ok:
  assumes "loop d m = Some (out, m')" "level_ok (prevYellowLED m)" "level_ok (prevWhiteLED m)"
  shows "level_ok (yellowLED out) \<and> level_ok (whiteLED out) \<and>
         level_ok (prevYellowLED m') \<and> level_ok (prevWhiteLED m')"
proof -
  from assms(1) obtain p fb where
    mode: "(if currentYellowRatio d m = - 1 then Some (darkness_fallback, True)
            else if isTooDark d \<or> (if inFallbackMode m \<and> isTooBright d then False else isTooBright d)
              then map_option (\<lambda>p. (p, inFallbackMode m)) (dark_or_bright m)
              else Some (comfort_band d m, inFallbackMode m)) = Some (p, fb)"
    and out: "yellowLED out = fst p" "whiteLED out = snd p"
    and m': "prevYellowLED m' = fst p" "prevWhiteLED m' = snd p"
    by (auto simp: loop_def Let_def split: option.splits prod.splits)
  have "level_ok (fst p) \<and> level_ok (snd p)"
    using mode darkness_fallback_level_ok comfort_band_level_ok [OF assms(2,3), of d]
      dark_or_bright_level_ok [of m p]
    by (auto split: if_splits)
  then show ?thesis by (simp add: out m')
qed

section \<open>Properties of rounding\<close>

lemma pow2_powi: "pow2 e = 2 powi e"
  by (simp add: pow2_def power_int_def inverse_eq_divide power_one_over)

lemma pow2_pos: "0 < pow2 e"
  by (simp add: pow2_powi)

lemma pow2_add: "pow2 (a + b) = pow2 a * pow2 b"
  by (simp add: pow2_powi power_int_add)

lemma pow2_0: "pow2 0 = 1"
  by (simp add: pow2_def)

lemma pow2_1: "pow2 1 = 2"
  by (simp add: pow2_def)

lemma pow2_Suc: "pow2 (e + 1) = 2 * pow2 e"
  by (simp add: pow2_add pow2_1)

lemma pow2_pred: "pow2 (e - 1) = pow2 e / 2"
  using pow2_Suc [of "e - 1"] by simp

lemma pow2_mono: "a \<le> b \<Longrightarrow> pow2 a \<le> pow2 b"
  by (simp add: pow2_powi power_int_increasing)

lemma pow2_less_cancel: "pow2 a < pow2 b \<Longrightarrow> a < b"
  using pow2_mono [of b a] by (cases "a < b") simp_all

lemma pow2_nat: "0 \<le> e \<Longrightarrow> pow2 e = of_int (2 ^ nat e)"
  by (simp add: pow2_def)

lemma expo_up_bounds: "1 \<le> x \<Longrightarrow> pow2 (expo_up x) \<le> x \<and> x < 2 * pow2 (expo_up x)"
proof (induction x rule: expo_up.induct)
  case (1 x)
  show ?case
  proof (cases "x < 2")
    case True
    with "1.prems" show ?thesis by (simp add: expo_up.simps [of x] pow2_0)
  next
    case False
    then have "1 \<le> x / 2" by simp
    from "1.IH" [OF False this] False show ?thesis
      by (simp add: expo_up.simps [of x] add.commute [of 1] pow2_Suc)
  qed
qed

lemma expo_down_bounds:
  "0 < x \<Longrightarrow> x < 1 \<Longrightarrow> pow2 (expo_down x) \<le> x \<and> x < 2 * pow2 (expo_down x)"
proof (induction x rule: expo_down.induct)
  case (1 x)
  from "1.prems" have nx: "\<not> (x \<le> 0 \<or> 1 \<le> x)" by simp
  show ?case
  proof (cases "2 * x < 1")
    case True
    from "1.IH" [OF nx _ True] "1.prems" nx show ?thesis
      by (simp add: expo_down.simps [of x] pow2_pred)
  next
    case False
    then have "expo_down (2 * x) = 0" by (simp add: expo_down.simps [of "2 * x"])
    with False "1.prems" nx show ?thesis
      by (simp add: expo_down.simps [of x] pow2_def)
  qed
qed

lemma expo_bounds: "0 < x \<Longrightarrow> pow2 (expo x) \<le> x \<and> x < 2 * pow2 (expo x)"
  using expo_up_bounds [of x] expo_down_bounds [of x] by (simp add: expo_def)

lemma expo_unique:
  assumes "pow2 e \<le> x" "x < 2 * pow2 e"
  shows "expo x = e"
proof -
  have x: "0 < x" using assms(1) pow2_pos [of e] by linarith
  note b = expo_bounds [OF x]
  have "pow2 e < pow2 (expo x + 1)" using assms(1) b by (simp add: pow2_Suc)
  then have "e < expo x + 1" by (rule pow2_less_cancel)
  moreover have "pow2 (expo x) < pow2 (e + 1)" using assms(2) b by (simp add: pow2_Suc)
  then have "expo x < e + 1" by (rule pow2_less_cancel)
  ultimately show ?thesis by simp
qed

lemma rne_cases: "rne q = \<lfloor>q\<rfloor> \<or> rne q = \<lfloor>q\<rfloor> + 1"
  by (simp add: rne_def Let_def)

lemma rne_error: "\<bar>of_int (rne q) - q\<bar> \<le> 1 / 2"
proof -
  have "of_int \<lfloor>q\<rfloor> \<le> q" "q < of_int \<lfloor>q\<rfloor> + 1" by linarith+
  then show ?thesis by (auto simp: rne_def Let_def)
qed

lemma rne_of_int: "rne (of_int n) = n"
  by (simp add: rne_def)

lemma rne_ge: "of_int n \<le> q \<Longrightarrow> n \<le> rne q"
proof -
  assume "of_int n \<le> q"
  then have "n \<le> \<lfloor>q\<rfloor>" by (simp add: le_floor_iff)
  then show ?thesis using rne_cases [of q] by auto
qed

lemma rne_le: "q \<le> of_int n \<Longrightarrow> rne q \<le> n"
proof (cases "q = of_int n")
  case True
  then show ?thesis by (simp add: rne_of_int)
next
  case False
  assume "q \<le> of_int n"
  with False have "q < of_int n" by simp
  then have "\<lfloor>q\<rfloor> < n" by (simp add: floor_less_iff)
  then show ?thesis using rne_cases [of q] by auto
qed

lemma flp_0: "flp p 0 = 0"
  by (simp add: flp_def)

lemma flp_pos_eq:
  "0 < x \<Longrightarrow> flp p x = of_int (rne (x / pow2 (expo x - int p + 1))) * pow2 (expo x - int p + 1)"
  by (simp add: flp_def Let_def)

lemma pow2_split: "b \<le> a \<Longrightarrow> pow2 a = of_int (2 ^ nat (a - b)) * pow2 b"
proof -
  assume "b \<le> a"
  then have "pow2 (a - b) = of_int (2 ^ nat (a - b))" by (simp add: pow2_nat)
  moreover have "pow2 a = pow2 (a - b) * pow2 b" by (simp add: pow2_add [symmetric])
  ultimately show ?thesis by simp
qed

lemma flp_ge_expo:
  assumes "0 < x" "0 < p"
  shows "pow2 (expo x) \<le> flp p x"
proof -
  define u where "u = pow2 (expo x - int p + 1)"
  define n :: int where "n = 2 ^ nat (expo x - (expo x - int p + 1))"
  have u: "0 < u" by (simp add: u_def pow2_pos)
  have pk: "pow2 (expo x) = of_int n * u"
    unfolding n_def u_def using assms(2) by (intro pow2_split) simp
  then have "of_int n \<le> x / u"
    using expo_bounds [OF assms(1)] u by (simp add: pos_le_divide_eq)
  then have "n \<le> rne (x / u)" by (rule rne_ge)
  then have "(of_int n :: real) \<le> of_int (rne (x / u))" by (simp only: of_int_le_iff)
  then have "of_int n * u \<le> of_int (rne (x / u)) * u" using u by (simp add: mult_right_mono)
  then show ?thesis unfolding flp_pos_eq [OF assms(1)] pk u_def .
qed

lemma flp_le_expo:
  assumes "0 < x" "0 < p"
  shows "flp p x \<le> 2 * pow2 (expo x)"
proof -
  define u where "u = pow2 (expo x - int p + 1)"
  define n :: int where "n = 2 ^ nat (expo x + 1 - (expo x - int p + 1))"
  have u: "0 < u" by (simp add: u_def pow2_pos)
  have "pow2 (expo x + 1) = of_int n * u"
    unfolding n_def u_def using assms(2) by (intro pow2_split) simp
  then have pk: "2 * pow2 (expo x) = of_int n * u" by (simp add: pow2_Suc)
  then have "x / u \<le> of_int n"
    using expo_bounds [OF assms(1)] u by (simp add: pos_divide_le_eq)
  then have "rne (x / u) \<le> n" by (rule rne_le)
  then have "(of_int (rne (x / u)) :: real) \<le> of_int n" by (simp only: of_int_le_iff)
  then have "of_int (rne (x / u)) * u \<le> of_int n * u" using u by (simp add: mult_right_mono)
  then show ?thesis unfolding flp_pos_eq [OF assms(1)] pk u_def .
qed

lemma flp_pos: "0 < x \<Longrightarrow> 0 < p \<Longrightarrow> 0 < flp p x"
  using flp_ge_expo [of x p] pow2_pos [of "expo x"] by linarith

lemma flp_nonneg: "0 \<le> x \<Longrightarrow> 0 < p \<Longrightarrow> 0 \<le> flp p x"
  using flp_pos [of x p] by (cases "x = 0") (simp_all add: flp_0)

lemma f32_pos: "0 < x \<Longrightarrow> 0 < f32 x"
  by (simp add: f32_def flp_pos)

lemma f32_nonneg: "0 \<le> x \<Longrightarrow> 0 \<le> f32 x"
  by (simp add: f32_def flp_nonneg)

lemma f32_0: "f32 0 = 0"
  by (simp add: f32_def flp_0)

section \<open>Rounding is monotone and accurate\<close>

lemma rne_mono: "q \<le> q' \<Longrightarrow> rne q \<le> rne q'"
proof -
  assume le: "q \<le> q'"
  then have fl: "\<lfloor>q\<rfloor> \<le> \<lfloor>q'\<rfloor>" by (rule floor_mono)
  show ?thesis
  proof (cases "\<lfloor>q\<rfloor> = \<lfloor>q'\<rfloor>")
    case True
    with le show ?thesis by (auto simp: rne_def Let_def)
  next
    case False
    with fl have "\<lfloor>q\<rfloor> + 1 \<le> \<lfloor>q'\<rfloor>" by simp
    then show ?thesis using rne_cases [of q] rne_cases [of q'] by auto
  qed
qed

lemma expo_mono:
  assumes "0 < x" "x \<le> y"
  shows "expo x \<le> expo y"
proof -
  from assms have y: "0 < y" by simp
  have "pow2 (expo x) < pow2 (expo y + 1)"
    using expo_bounds [OF assms(1)] expo_bounds [OF y] assms(2) by (simp add: pow2_Suc)
  then have "expo x < expo y + 1" by (rule pow2_less_cancel)
  then show ?thesis by simp
qed

lemma flp_mono:
  assumes "0 \<le> x" "x \<le> y" "0 < p"
  shows "flp p x \<le> flp p y"
proof (cases "x = 0")
  case True
  then show ?thesis using assms flp_nonneg [of y p] by (simp add: flp_0)
next
  case False
  with assms have x: "0 < x" and y: "0 < y" by simp_all
  show ?thesis
  proof (cases "expo x = expo y")
    case True
    define u where "u = pow2 (expo y - int p + 1)"
    have u: "0 < u" by (simp add: u_def pow2_pos)
    from assms(2) u have "x / u \<le> y / u" by (simp add: divide_right_mono)
    then have "rne (x / u) \<le> rne (y / u)" by (rule rne_mono)
    then have "(of_int (rne (x / u)) :: real) \<le> of_int (rne (y / u))" by (simp only: of_int_le_iff)
    then have "of_int (rne (x / u)) * u \<le> of_int (rne (y / u)) * u"
      using u by (simp add: mult_right_mono)
    then show ?thesis
      unfolding flp_pos_eq [OF x] flp_pos_eq [OF y] True u_def .
  next
    case False
    with expo_mono [OF x assms(2)] have "expo x + 1 \<le> expo y" by simp
    then have "pow2 (expo x + 1) \<le> pow2 (expo y)" by (rule pow2_mono)
    with flp_le_expo [OF x assms(3)] flp_ge_expo [OF y assms(3)]
    show ?thesis by (simp add: pow2_Suc)
  qed
qed

lemma flp_1: "0 < p \<Longrightarrow> flp p 1 = 1"
proof -
  assume p: "0 < p"
  have e: "expo 1 = 0" by (rule expo_unique) (simp_all add: pow2_0)
  have "(1::real) = of_int (2 ^ nat (0 - (0 - int p + 1))) * pow2 (0 - int p + 1)"
    using p pow2_split [of "0 - int p + 1" 0] by (simp add: pow2_0)
  then have "1 / pow2 (0 - int p + 1) = of_int (2 ^ nat (0 - (0 - int p + 1)))"
    using pow2_pos [of "0 - int p + 1"] by (simp add: field_simps)
  then show ?thesis
    using pow2_pos [of "0 - int p + 1"]
    by (simp only: flp_pos_eq [OF zero_less_one] e rne_of_int) (simp add: field_simps)
qed

lemma flp_le_1: "0 \<le> x \<Longrightarrow> x \<le> 1 \<Longrightarrow> 0 < p \<Longrightarrow> flp p x \<le> 1"
  using flp_mono [of x 1 p] by (simp add: flp_1)

lemma flp_error:
  assumes "x \<noteq> 0"
  shows "\<bar>flp p x - x\<bar> \<le> pow2 (expo \<bar>x\<bar> - int p + 1) / 2"
proof -
  define u where "u = pow2 (expo \<bar>x\<bar> - int p + 1)"
  have u: "0 < u" by (simp add: u_def pow2_pos)
  have "flp p x = of_int (rne (x / u)) * u"
    using assms by (simp add: flp_def Let_def u_def)
  then have "flp p x - x = (of_int (rne (x / u)) - x / u) * u"
    using u by (simp add: field_simps)
  then have "\<bar>flp p x - x\<bar> = \<bar>of_int (rne (x / u)) - x / u\<bar> * u"
    using u by (simp add: abs_mult)
  also have "\<dots> \<le> 1 / 2 * u"
    using rne_error [of "x / u"] u by (intro mult_right_mono) simp_all
  finally show ?thesis by (simp add: u_def)
qed

lemma flp_rel_error: "\<bar>flp p x - x\<bar> \<le> \<bar>x\<bar> / 2 ^ p"
proof (cases "x = 0")
  case True
  then show ?thesis by (simp add: flp_0)
next
  case False
  then have ax: "0 < \<bar>x\<bar>" by simp
  have "pow2 (expo \<bar>x\<bar> - int p + 1) = pow2 (expo \<bar>x\<bar>) * pow2 (- int p) * 2"
    using pow2_add [of "expo \<bar>x\<bar> + - int p" 1] pow2_add [of "expo \<bar>x\<bar>" "- int p"]
    by (simp add: pow2_1)
  moreover have "pow2 (- int p) = 1 / 2 ^ p" by (simp add: pow2_def)
  ultimately have "pow2 (expo \<bar>x\<bar> - int p + 1) / 2 = pow2 (expo \<bar>x\<bar>) / 2 ^ p" by simp
  also have "\<dots> \<le> \<bar>x\<bar> / 2 ^ p"
    using expo_bounds [OF ax] by (simp add: divide_right_mono)
  finally show ?thesis using flp_error [OF False, of p] by linarith
qed

lemma flp_error_below_1:
  assumes "0 \<le> x" "x \<le> 1" "0 < p"
  shows "\<bar>flp p x - x\<bar> \<le> 1 / 2 ^ (p + 1)"
proof (cases "x = 0 \<or> x = 1")
  case True
  with assms(3) show ?thesis by (auto simp: flp_0 flp_1)
next
  case False
  with assms have x: "0 < x" "x < 1" by simp_all
  have "pow2 (expo x) < pow2 0" using expo_bounds [OF x(1)] x(2) by (simp add: pow2_0)
  then have "expo x < 0" by (rule pow2_less_cancel)
  then have "expo x - int p + 1 \<le> - int p" by simp
  then have "pow2 (expo x - int p + 1) \<le> pow2 (- int p)" by (rule pow2_mono)
  moreover have "pow2 (- int p) = 1 / 2 ^ p" by (simp add: pow2_def)
  ultimately have "pow2 (expo \<bar>x\<bar> - int p + 1) / 2 \<le> 1 / 2 ^ (p + 1)"
    using x(1) by simp
  with flp_error [of x p] x(1) show ?thesis by simp
qed

section \<open>Sample readings\<close>

lemma black_reading:
  fixes d defines "d \<equiv> \<lparr>rawR = 0, rawG = 0, rawB = 0, rawC = 0\<rparr>"
  shows "ambientYellow d = 0" "ambientWhite d = 0" "ambientTotal d = 0"
    "isTooDark d" "\<not> isTooBright d"
proof -
  show y: "ambientYellow d = 0" by (simp add: d_def ambientYellow_def fl_eval)
  show w: "ambientWhite d = 0" by (simp add: d_def ambientWhite_def)
  show t: "ambientTotal d = 0" by (simp add: ambientTotal_def y w fl_eval)
  show "isTooDark d" "\<not> isTooBright d"
    by (simp_all add: isTooDark_def isTooBright_def t thresholds)
qed

lemma dim_reading:
  fixes d defines "d \<equiv> \<lparr>rawR = 10, rawG = 10, rawB = 10, rawC = 30\<rparr>"
  shows "ambientYellow d = 10" "ambientWhite d = 10" "ambientTotal d = 20"
    "isTooDark d" "\<not> isTooBright d"
proof -
  show y: "ambientYellow d = 10" by (simp add: d_def ambientYellow_def fl_eval)
  show w: "ambientWhite d = 10" by (simp add: d_def ambientWhite_def)
  show t: "ambientTotal d = 20" by (simp add: ambientTotal_def y w fl_eval)
  show "isTooDark d" "\<not> isTooBright d"
    by (simp_all add: isTooDark_def isTooBright_def t thresholds)
qed

lemma room_reading:
  fixes d defines "d \<equiv> \<lparr>rawR = 100, rawG = 100, rawB = 100, rawC = 300\<rparr>"
  shows "ambientYellow d = 100" "ambientWhite d = 100" "ambientTotal d = 200"
    "\<not> isTooDark d" "\<not> isTooBright d"
proof -
  show y: "ambientYellow d = 100" by (simp add: d_def ambientYellow_def fl_eval)
  show w: "ambientWhite d = 100" by (simp add: d_def ambientWhite_def)
  show t: "ambientTotal d = 200" by (simp add: ambientTotal_def y w fl_eval)
  show "\<not> isTooDark d" "\<not> isTooBright d"
    by (simp_all add: isTooDark_def isTooBright_def t thresholds)
qed

lemma warm_reading:
  fixes d defines "d \<equiv> \<lparr>rawR = 290, rawG = 290, rawB = 200, rawC = 780\<rparr>"
  shows "ambientYellow d = 290" "ambientWhite d = 200" "ambientTotal d = 490"
    "\<not> isTooDark d" "\<not> isTooBright d"
proof -
  show y: "ambientYellow d = 290" by (simp add: d_def ambientYellow_def fl_eval)
  show w: "ambientWhite d = 200" by (simp add: d_def ambientWhite_def)
  show t: "ambientTotal d = 490" by (simp add: ambientTotal_def y w fl_eval)
  show "\<not> isTooDark d" "\<not> isTooBright d"
    by (simp_all add: isTooDark_def isTooBright_def t thresholds)
qed

lemma bright_reading:
  fixes d defines "d \<equiv> \<lparr>rawR = 1000, rawG = 1000, rawB = 1000, rawC = 3000\<rparr>"
  shows "ambientYellow d = 1000" "ambientWhite d = 1000" "ambientTotal d = 2000"
    "\<not> isTooDark d" "isTooBright d"
proof -
  show y: "ambientYellow d = 1000" by (simp add: d_def ambientYellow_def fl_eval)
  show w: "ambientWhite d = 1000" by (simp add: d_def ambientWhite_def)
  show t: "ambientTotal d = 2000" by (simp add: ambientTotal_def y w fl_eval)
  show "\<not> isTooDark d" "isTooBright d"
    by (simp_all add: isTooDark_def isTooBright_def t thresholds)
qed

lemma ratio_eval:
  assumes "ambientYellow d = ay" "ambientWhite d = aw"
  shows "currentYellowRatio d \<lparr>prevYellowLED = y, prevWhiteLED = w, inFallbackMode = fb\<rparr> =
    (if f32 (f32 (of_int y + ay) + f32 (of_int w + aw)) > 0
     then f32 (f32 (of_int y + ay) / f32 (f32 (of_int y + ay) + f32 (of_int w + aw))) else - 1)"
  by (simp add: currentYellowRatio_def total_def YOI_def WOI_def assms)

lemma downscale_eval:
  "downscale 0 = 0" "downscale 30 = 27" "downscale 19 = 17" "downscale 29 = 26"
  "downscale 17 = 15" "downscale 26 = 23"
  by (simp_all add: downscale_def round_macro_def scalingFactor_def constrain_def
      maxLEDIntensity_def fl_eval)

lemma led_ratio_eval:
  "led_ratio 0 0 = - 1" "led_ratio 27 17 = 5147555 / 8388608"
  "led_ratio 26 15 = 5319605 / 8388608" "led_ratio 23 15 = 10154631 / 16777216"
  by (simp_all add: led_ratio_def fl_eval)

lemma band_consts: "f32 (29 / 50) = 9730785 / 16777216" "f32 (31 / 50) = 5200937 / 8388608"
  by (simp_all add: fl_eval)

lemma ratio_loop_done:
  "\<not> ratio < f32 (58 / 100) \<Longrightarrow> \<not> ratio > f32 (62 / 100) \<Longrightarrow> ratio_loop y w ratio = Some (y, w)"
  by (subst ratio_loop.simps) simp

lemma ratio_loop_yellow:
  "ratio > f32 (62 / 100) \<Longrightarrow>
   ratio_loop y w ratio = ratio_loop (downscale y) w (led_ratio (downscale y) w)"
  by (subst ratio_loop.simps) simp

lemma ratio_loop_white:
  "ratio < f32 (58 / 100) \<Longrightarrow> \<not> ratio > f32 (62 / 100) \<Longrightarrow>
   ratio_loop y w ratio = ratio_loop y (downscale w) (led_ratio y (downscale w))"
  by (subst ratio_loop.simps) simp

lemmas ratio_loop_eval = ratio_loop_done ratio_loop_yellow ratio_loop_white band_consts

lemma dark_or_bright_eval:
  "dark_or_bright \<lparr>prevYellowLED = 30, prevWhiteLED = 19, inFallbackMode = fb\<rparr> = Some (27, 17)"
  "dark_or_bright \<lparr>prevYellowLED = 29, prevWhiteLED = 17, inFallbackMode = fb\<rparr> = Some (23, 15)"
  by (simp_all add: dark_or_bright_def downscale_eval led_ratio_eval cutoff_def ratio_loop_eval)

section \<open>Sample runs of the loop\<close>

lemma loop_black_start:
  "loop \<lparr>rawR = 0, rawG = 0, rawB = 0, rawC = 0\<rparr>
        \<lparr>prevYellowLED = 0, prevWhiteLED = 0, inFallbackMode = False\<rparr> =
   Some (\<lparr>yellowLED = 30, whiteLED = 19\<rparr>,
         \<lparr>prevYellowLED = 30, prevWhiteLED = 19, inFallbackMode = True\<rparr>)"
proof -
  have "currentYellowRatio \<lparr>rawR = 0, rawG = 0, rawB = 0, rawC = 0\<rparr>
        \<lparr>prevYellowLED = 0, prevWhiteLED = 0, inFallbackMode = False\<rparr> = - 1"
    by (simp add: ratio_eval [OF black_reading(1,2)] fl_eval)
  then show ?thesis
    by (simp add: loop_def black_reading darkness_fallback_eq)
qed

lemma loop_dim_fallback:
  "loop \<lparr>rawR = 10, rawG = 10, rawB = 10, rawC = 30\<rparr>
        \<lparr>prevYellowLED = 30, prevWhiteLED = 19, inFallbackMode = True\<rparr> =
   Some (\<lparr>yellowLED = 27, whiteLED = 17\<rparr>,
         \<lparr>prevYellowLED = 27, prevWhiteLED = 17, inFallbackMode = True\<rparr>)"
proof -
  have "currentYellowRatio \<lparr>rawR = 10, rawG = 10, rawB = 10, rawC = 30\<rparr>
        \<lparr>prevYellowLED = 30, prevWhiteLED = 19, inFallbackMode = True\<rparr> = 4862961 / 8388608"
    by (simp add: ratio_eval [OF dim_reading(1,2)] fl_eval)
  then show ?thesis
    by (simp add: loop_def dim_reading dark_or_bright_eval)
qed

lemma ratio_bright_fallback:
  "currentYellowRatio \<lparr>rawR = 1000, rawG = 1000, rawB = 1000, rawC = 3000\<rparr>
        \<lparr>prevYellowLED = 27, prevWhiteLED = 17, inFallbackMode = True\<rparr> = 526853 / 1048576"
  by (simp add: ratio_eval [OF bright_reading(1,2)] fl_eval)

lemma comfort_bright_fallback:
  "comfort_band \<lparr>rawR = 1000, rawG = 1000, rawB = 1000, rawC = 3000\<rparr>
        \<lparr>prevYellowLED = 27, prevWhiteLED = 17, inFallbackMode = True\<rparr> = (29, 17)"
  by (simp add: comfort_band_def ratio_bright_fallback round_macro_def constrain_def
      maxLEDIntensity_def fl_eval)

lemma loop_bright_fallback:
  "loop \<lparr>rawR = 1000, rawG = 1000, rawB = 1000, rawC = 3000\<rparr>
        \<lparr>prevYellowLED = 27, prevWhiteLED = 17, inFallbackMode = True\<rparr> =
   Some (\<lparr>yellowLED = 29, whiteLED = 17\<rparr>,
         \<lparr>prevYellowLED = 29, prevWhiteLED = 17, inFallbackMode = False\<rparr>)"
  by (simp add: loop_def bright_reading ratio_bright_fallback comfort_bright_fallback)

lemma loop_bright:
  "loop \<lparr>rawR = 1000, rawG = 1000, rawB = 1000, rawC = 3000\<rparr>
        \<lparr>prevYellowLED = 29, prevWhiteLED = 17, inFallbackMode = False\<rparr> =
   Some (\<lparr>yellowLED = 23, whiteLED = 15\<rparr>,
         \<lparr>prevYellowLED = 23, prevWhiteLED = 15, inFallbackMode = False\<rparr>)"
proof -
  have "currentYellowRatio \<lparr>rawR = 1000, rawG = 1000, rawB = 1000, rawC = 3000\<rparr>
        \<lparr>prevYellowLED = 29, prevWhiteLED = 17, inFallbackMode = False\<rparr> = 527363 / 1048576"
    by (simp add: ratio_eval [OF bright_reading(1,2)] fl_eval)
  then show ?thesis
    by (simp add: loop_def bright_reading dark_or_bright_eval)
qed

lemma ratio_room:
  "currentYellowRatio \<lparr>rawR = 100, rawG = 100, rawB = 100, rawC = 300\<rparr>
        \<lparr>prevYellowLED = 29, prevWhiteLED = 17, inFallbackMode = False\<rparr> = 549863 / 1048576"
  by (simp add: ratio_eval [OF room_reading(1,2)] fl_eval)

lemma loop_room:
  "loop \<lparr>rawR = 100, rawG = 100, rawB = 100, rawC = 300\<rparr>
        \<lparr>prevYellowLED = 29, prevWhiteLED = 17, inFallbackMode = False\<rparr> =
   Some (\<lparr>yellowLED = 31, whiteLED = 17\<rparr>,
         \<lparr>prevYellowLED = 31, prevWhiteLED = 17, inFallbackMode = False\<rparr>)"
proof -
  have "comfort_band \<lparr>rawR = 100, rawG = 100, rawB = 100, rawC = 300\<rparr>
        \<lparr>prevYellowLED = 29, prevWhiteLED = 17, inFallbackMode = False\<rparr> = (31, 17)"
    by (simp add: comfort_band_def ratio_room round_macro_def constrain_def
        maxLEDIntensity_def fl_eval)
  then show ?thesis
    by (simp add: loop_def room_reading ratio_room)
qed

lemma ratio_warm:
  "currentYellowRatio \<lparr>rawR = 290, rawG = 290, rawB = 200, rawC = 780\<rparr>
        \<lparr>prevYellowLED = 30, prevWhiteLED = 19, inFallbackMode = True\<rparr> = 9960499 / 16777216"
  by (simp add: ratio_eval [OF warm_reading(1,2)] fl_eval)

section \<open>The ratio loop with the yellow channel off\<close>

lemma led_ratio_yellow_off: "led_ratio 0 w < f32 (58 / 100) \<and> \<not> led_ratio 0 w > f32 (62 / 100)"
  by (simp add: led_ratio_def f32_0 band_consts)

lemma ratio_loop_yellow_off: "ratio_loop 0 w (led_ratio 0 w) = None"
proof (rule ccontr)
  assume "ratio_loop 0 w (led_ratio 0 w) \<noteq> None"
  then obtain p where p: "ratio_loop 0 w (led_ratio 0 w) = Some p" by auto
  have "\<not> (0 = (0::int) \<and> led_ratio 0 w = led_ratio 0 w)"
  proof (rule ratio_loop.raw_induct
      [where P = "\<lambda>y w ratio p. \<not> (y = 0 \<and> ratio = led_ratio 0 w)", OF _ p])
    fix rec :: "int \<Rightarrow> int \<Rightarrow> real \<Rightarrow> (int \<times> int) option" and y w ratio p
    assume IH: "\<And>y w ratio p. rec y w ratio = Some p \<Longrightarrow> \<not> (y = 0 \<and> ratio = led_ratio 0 w)"
      and body: "(if ratio < f32 (58 / 100) \<or> f32 (62 / 100) < ratio
        then if f32 (62 / 100) < ratio
             then rec (downscale y) w (led_ratio (downscale y) w)
             else if ratio < f32 (58 / 100)
                  then rec y (downscale w) (led_ratio y (downscale w))
                  else rec y w (led_ratio y w)
        else Some (y, w)) = Some p"
    show "\<not> (y = 0 \<and> ratio = led_ratio 0 w)"
    proof
      assume a: "y = 0 \<and> ratio = led_ratio 0 w"
      with body led_ratio_yellow_off [of w]
      have "rec 0 (downscale w) (led_ratio 0 (downscale w)) = Some p" by simp
      from IH [OF this] show False by simp
    qed
  qed
  then show False by simp
qed

lemma dark_or_bright_yellow_off: "prevYellowLED m = 0 \<Longrightarrow> dark_or_bright m = None"
  by (simp add: dark_or_bright_def downscale_eval ratio_loop_yellow_off)

text \<open>From the levels 200 and 50 the loop ends, after nine rescalings of yellow, inside the band.\<close>

lemma downscale_chain:
  "downscale 200 = 180" "downscale 50 = 45" "downscale 180 = 162" "downscale 162 = 146"
  "downscale 146 = 131" "downscale 131 = 118" "downscale 118 = 106" "downscale 106 = 95"
  "downscale 95 = 86" "downscale 86 = 77" "downscale 77 = 69"
  by (simp_all add: downscale_def round_macro_def scalingFactor_def constrain_def
      maxLEDIntensity_def fl_eval)

lemma led_ratio_chain:
  "led_ratio 180 45 > f32 (62 / 100)" "led_ratio 162 45 > f32 (62 / 100)"
  "led_ratio 146 45 > f32 (62 / 100)" "led_ratio 131 45 > f32 (62 / 100)"
  "led_ratio 118 45 > f32 (62 / 100)" "led_ratio 106 45 > f32 (62 / 100)"
  "led_ratio 95 45 > f32 (62 / 100)" "led_ratio 86 45 > f32 (62 / 100)"
  "led_ratio 77 45 > f32 (62 / 100)"
  "\<not> led_ratio 69 45 < f32 (58 / 100)" "\<not> led_ratio 69 45 > f32 (62 / 100)"
  by (simp_all add: led_ratio_def band_consts fl_eval)

lemma dark_or_bright_200_50:
  "dark_or_bright \<lparr>prevYellowLED = 200, prevWhiteLED = 50, inFallbackMode = fb\<rparr> = Some (69, 45)"
  by (simp add: dark_or_bright_def downscale_chain cutoff_def
      ratio_loop_yellow [OF led_ratio_chain(1)] ratio_loop_yellow [OF led_ratio_chain(2)]
      ratio_loop_yellow [OF led_ratio_chain(3)] ratio_loop_yellow [OF led_ratio_chain(4)]
      ratio_loop_yellow [OF led_ratio_chain(5)] ratio_loop_yellow [OF led_ratio_chain(6)]
      ratio_loop_yellow [OF led_ratio_chain(7)] ratio_loop_yellow [OF led_ratio_chain(8)]
      ratio_loop_yellow [OF led_ratio_chain(9)] ratio_loop_done [OF led_ratio_chain(10,11)])

section \<open>Too bright in fallback mode\<close>

lemma count_nonneg: "0 \<le> (of_int (uint (c :: 16 word)) :: real)"
  by (rule of_int_nonneg) simp

lemma ambient_nonneg: "0 \<le> ambientYellow d" "0 \<le> ambientWhite d"
proof -
  have "0 \<le> (of_int (uint (rawR d)) :: real) + of_int (uint (rawG d))"
    using count_nonneg [of "rawR d"] count_nonneg [of "rawG d"] by linarith
  then have "0 \<le> f32 (of_int (uint (rawR d)) + of_int (uint (rawG d))) / 2"
    using f32_nonneg by simp
  then show "0 \<le> ambientYellow d"
    unfolding ambientYellow_def by (rule f32_nonneg)
  show "0 \<le> ambientWhite d"
    unfolding ambientWhite_def by (rule count_nonneg)
qed

lemma too_bright_ambient_pos:
  assumes "isTooBright d"
  shows "0 < ambientYellow d + ambientWhite d"
proof (rule ccontr)
  assume "\<not> 0 < ambientYellow d + ambientWhite d"
  with ambient_nonneg [of d] have "ambientYellow d + ambientWhite d = 0" by linarith
  then have "ambientTotal d = 0" by (simp add: ambientTotal_def f32_0)
  with assms show False by (simp add: isTooBright_def thresholds)
qed

lemma too_bright_not_too_dark: "isTooBright d \<Longrightarrow> \<not> isTooDark d"
  by (simp add: isTooBright_def isTooDark_def thresholds)

lemma too_bright_total_pos:
  assumes "isTooBright d" "0 \<le> prevYellowLED m" "0 \<le> prevWhiteLED m"
  shows "0 < total d m"
proof -
  have y: "0 \<le> YOI d m" and w: "0 \<le> WOI d m"
    using assms(2,3) ambient_nonneg [of d] by (simp_all add: YOI_def WOI_def f32_nonneg)
  from too_bright_ambient_pos [OF assms(1)] ambient_nonneg [of d]
  have "0 < ambientYellow d \<or> 0 < ambientWhite d" by linarith
  then have "0 < YOI d m \<or> 0 < WOI d m"
    using assms(2,3) ambient_nonneg [of d] by (auto simp: YOI_def WOI_def intro!: f32_pos)
  with y w have "0 < YOI d m + WOI d m" by linarith
  then show ?thesis by (simp add: total_def f32_pos)
qed

lemma too_bright_ratio_defined:
  assumes "isTooBright d" "0 \<le> prevYellowLED m" "0 \<le> prevWhiteLED m"
  shows "currentYellowRatio d m \<noteq> - 1"
proof -
  have "0 \<le> YOI d m"
    using assms(2) ambient_nonneg [of d] by (simp add: YOI_def f32_nonneg)
  then have "0 \<le> f32 (YOI d m / total d m)"
    using too_bright_total_pos [OF assms] by (simp add: f32_nonneg)
  then show ?thesis using too_bright_total_pos [OF assms] by (simp add: currentYellowRatio_def)
qed

text \<open>
  C3. With the fallback flag set and a reading that is too bright (stored levels in range),
  a run of \<^verbatim>\<open>loop\<close> does not take the downscale branch: it returns, writes and stores
  exactly the levels of the comfort-band mode for that reading and memory, and clears the
  fallback flag.
\<close>

theorem fallback_override_follows_comfort_band:
  assumes "inFallbackMode m" and "isTooBright d"
    and "level_ok (prevYellowLED m)" and "level_ok (prevWhiteLED m)"
  shows "loop d m =
         Some (\<lparr>yellowLED = fst (comfort_band d m), whiteLED = snd (comfort_band d m)\<rparr>,
               \<lparr>prevYellowLED = fst (comfort_band d m), prevWhiteLED = snd (comfort_band d m),
                inFallbackMode = False\<rparr>)"
proof -
  from assms(3,4) have nn: "0 \<le> prevYellowLED m" "0 \<le> prevWhiteLED m"
    by (simp_all add: level_ok_def)
  show ?thesis
    using too_bright_ratio_defined [OF assms(2) nn] too_bright_not_too_dark [OF assms(2)] assms(1,2)
    by (simp add: loop_def Let_def split: prod.splits)
qed

theorem fallback_override_follows_comfort_band_witness:
  "inFallbackMode \<lparr>prevYellowLED = 27, prevWhiteLED = 17, inFallbackMode = True\<rparr> \<and>
   isTooBright \<lparr>rawR = 1000, rawG = 1000, rawB = 1000, rawC = 3000\<rparr> \<and>
   level_ok 27 \<and> level_ok 17 \<and>
   loop \<lparr>rawR = 1000, rawG = 1000, rawB = 1000, rawC = 3000\<rparr>
        \<lparr>prevYellowLED = 27, prevWhiteLED = 17, inFallbackMode = True\<rparr> =
   Some (\<lparr>yellowLED = 29, whiteLED = 17\<rparr>,
         \<lparr>prevYellowLED = 29, prevWhiteLED = 17, inFallbackMode = False\<rparr>)"
proof -
  have ok: "level_ok 27" "level_ok 17" by (simp_all add: level_ok_def maxLEDIntensity_def)
  from fallback_override_follows_comfort_band
    [of "\<lparr>prevYellowLED = 27, prevWhiteLED = 17, inFallbackMode = True\<rparr>"
        "\<lparr>rawR = 1000, rawG = 1000, rawB = 1000, rawC = 3000\<rparr>"]
  show ?thesis
    using ok bright_reading(5) by (simp add: comfort_bright_fallback)
qed

section \<open>Claims about the sketch\<close>

text \<open>
  C1. Started with both stored levels in \<open>[0, maxLEDIntensity]\<close>, every pair of duty cycles
  that a sequence of runs of \<^verbatim>\<open>loop\<close> writes lies in \<open>[0, maxLEDIntensity]\<close>, and so do
  the levels stored for the next run, whatever the readings and whichever mode each run takes.
\<close>

theorem levels_stay_in_range:
  assumes "level_ok (prevYellowLED m)" and "level_ok (prevWhiteLED m)"
    and "loops ds m = Some (outs, m')"
  shows "(\<forall>out \<in> set outs. level_ok (yellowLED out) \<and> level_ok (whiteLED out)) \<and>
         level_ok (prevYellowLED m') \<and> level_ok (prevWhiteLED m')"
  using assms
proof (induction ds arbitrary: m outs)
  case Nil
  then show ?case by simp
next
  case (Cons d ds)
  from Cons.prems(3) obtain out m1 outs1 where
    step: "loop d m = Some (out, m1)" and rest: "loops ds m1 = Some (outs1, m')"
    and outs: "outs = out # outs1"
    by (auto split: option.splits prod.splits)
  from loop_level_ok [OF step Cons.prems(1,2)]
  have now: "level_ok (yellowLED out)" "level_ok (whiteLED out)"
    and next_run: "level_ok (prevYellowLED m1)" "level_ok (prevWhiteLED m1)"
    by simp_all
  from Cons.IH [OF next_run rest] now show ?case by (simp add: outs)
qed

lemma loops_four_modes:
  "loops [\<lparr>rawR = 0, rawG = 0, rawB = 0, rawC = 0\<rparr>,
          \<lparr>rawR = 10, rawG = 10, rawB = 10, rawC = 30\<rparr>,
          \<lparr>rawR = 1000, rawG = 1000, rawB = 1000, rawC = 3000\<rparr>,
          \<lparr>rawR = 1000, rawG = 1000, rawB = 1000, rawC = 3000\<rparr>]
         \<lparr>prevYellowLED = 0, prevWhiteLED = 0, inFallbackMode = False\<rparr> =
   Some ([\<lparr>yellowLED = 30, whiteLED = 19\<rparr>, \<lparr>yellowLED = 27, whiteLED = 17\<rparr>,
          \<lparr>yellowLED = 29, whiteLED = 17\<rparr>, \<lparr>yellowLED = 23, whiteLED = 15\<rparr>],
         \<lparr>prevYellowLED = 23, prevWhiteLED = 15, inFallbackMode = False\<rparr>)"
  by (simp add: loop_black_start loop_dim_fallback loop_bright_fallback loop_bright)

theorem levels_stay_in_range_witness:
  "level_ok 0 \<and>
   loops [\<lparr>rawR = 0, rawG = 0, rawB = 0, rawC = 0\<rparr>,
          \<lparr>rawR = 10, rawG = 10, rawB = 10, rawC = 30\<rparr>,
          \<lparr>rawR = 1000, rawG = 1000, rawB = 1000, rawC = 3000\<rparr>,
          \<lparr>rawR = 1000, rawG = 1000, rawB = 1000, rawC = 3000\<rparr>]
         \<lparr>prevYellowLED = 0, prevWhiteLED = 0, inFallbackMode = False\<rparr> =
   Some ([\<lparr>yellowLED = 30, whiteLED = 19\<rparr>, \<lparr>yellowLED = 27, whiteLED = 17\<rparr>,
          \<lparr>yellowLED = 29, whiteLED = 17\<rparr>, \<lparr>yellowLED = 23, whiteLED = 15\<rparr>],
         \<lparr>prevYellowLED = 23, prevWhiteLED = 15, inFallbackMode = False\<rparr>) \<and>
   level_ok 30 \<and> level_ok 19 \<and> level_ok 27 \<and> level_ok 17 \<and> level_ok 29 \<and>
   level_ok 23 \<and> level_ok 15"
proof -
  have "level_ok (prevYellowLED \<lparr>prevYellowLED = 0, prevWhiteLED = 0, inFallbackMode = False\<rparr>)"
    and "level_ok (prevWhiteLED \<lparr>prevYellowLED = 0, prevWhiteLED = 0, inFallbackMode = False\<rparr>)"
    by (simp_all add: level_ok_0)
  from levels_stay_in_range [OF this loops_four_modes]
  show ?thesis using loops_four_modes level_ok_0 by simp
qed

text \<open>
  C2. Switched on in a dim room (stored levels 0 and 0, a reading that is too dark but not
  black), the ratio loop is entered with both levels 0 and the ratio \<open>-1\<close>, which it takes for
  a ratio below the band: the run of \<^verbatim>\<open>loop\<close> never returns.
\<close>

theorem dim_start_never_returns:
  "isTooDark \<lparr>rawR = 10, rawG = 10, rawB = 10, rawC = 30\<rparr> \<and>
   loop \<lparr>rawR = 10, rawG = 10, rawB = 10, rawC = 30\<rparr>
        \<lparr>prevYellowLED = 0, prevWhiteLED = 0, inFallbackMode = False\<rparr> = None"
proof -
  have ratio: "currentYellowRatio \<lparr>rawR = 10, rawG = 10, rawB = 10, rawC = 30\<rparr>
        \<lparr>prevYellowLED = 0, prevWhiteLED = 0, inFallbackMode = False\<rparr> = 1 / 2"
    by (simp add: ratio_eval [OF dim_reading(1,2)] fl_eval)
  have "dark_or_bright \<lparr>prevYellowLED = 0, prevWhiteLED = 0, inFallbackMode = False\<rparr> = None"
    by (rule dark_or_bright_yellow_off) simp
  with ratio show ?thesis
    by (simp add: loop_def dim_reading)
qed

lemma loop_darkness:
  assumes "total d m = 0"
  shows "loop d m = Some (\<lparr>yellowLED = 30, whiteLED = 19\<rparr>,
                          \<lparr>prevYellowLED = 30, prevWhiteLED = 19, inFallbackMode = True\<rparr>)"
proof -
  from assms have "currentYellowRatio d m = - 1" by (simp add: currentYellowRatio_def)
  then show ?thesis by (simp add: loop_def darkness_fallback_eq)
qed

text \<open>
  C4. With black readings and both stored levels 0 the combined total is 0, the ratio is the
  sentinel \<open>-1\<close> and the fallback flag is set; the yellow level is 30, and the white level is
  19, not 20: \<^verbatim>\<open>50 * (1.0 - 0.6f)\<close> is just below 20 and is converted to \<^verbatim>\<open>int\<close> unrounded
  (also where \<^verbatim>\<open>double\<close> has 64 bits).
\<close>

theorem darkness_fallback_output:
  "total \<lparr>rawR = 0, rawG = 0, rawB = 0, rawC = 0\<rparr>
         \<lparr>prevYellowLED = 0, prevWhiteLED = 0, inFallbackMode = False\<rparr> = 0 \<and>
   loop \<lparr>rawR = 0, rawG = 0, rawB = 0, rawC = 0\<rparr>
        \<lparr>prevYellowLED = 0, prevWhiteLED = 0, inFallbackMode = False\<rparr> =
   Some (\<lparr>yellowLED = 30, whiteLED = 19\<rparr>,
         \<lparr>prevYellowLED = 30, prevWhiteLED = 19, inFallbackMode = True\<rparr>) \<and>
   f32 (of_int default_k * f32 (1 - targetYellowRatio)) = 20 - 1 / 2 ^ 19 \<and>
   trunc (f64 (of_int default_k * f64 (1 - targetYellowRatio))) = 19"
proof -
  have "total \<lparr>rawR = 0, rawG = 0, rawB = 0, rawC = 0\<rparr>
         \<lparr>prevYellowLED = 0, prevWhiteLED = 0, inFallbackMode = False\<rparr> = 0"
    by (simp add: total_def YOI_def WOI_def black_reading f32_0)
  moreover have "f32 (of_int default_k * f32 (1 - targetYellowRatio)) = 20 - 1 / 2 ^ 19"
    by (simp add: default_k_def targetYellowRatio_def fl_eval)
  moreover have "trunc (f64 (of_int default_k * f64 (1 - targetYellowRatio))) = 19"
    by (simp add: default_k_def targetYellowRatio_def fl_eval)
  ultimately show ?thesis using loop_black_start by simp
qed

text \<open>
  C7. When a run of \<^verbatim>\<open>loop\<close> returns, the fallback flag is cleared if the reading was
  not too dark and the ratio was defined; otherwise a flag that was set stays set.
\<close>

theorem fallback_exit:
  assumes "loop d m = Some (out, m')"
  shows "(\<not> isTooDark d \<and> currentYellowRatio d m \<noteq> - 1 \<longrightarrow> \<not> inFallbackMode m') \<and>
         (\<not> (\<not> isTooDark d \<and> currentYellowRatio d m \<noteq> - 1) \<longrightarrow>
            inFallbackMode m \<longrightarrow> inFallbackMode m')"
  using assms
  by (auto simp: loop_def Let_def split: option.splits prod.splits if_splits)

theorem fallback_exit_witness:
  "loop \<lparr>rawR = 10, rawG = 10, rawB = 10, rawC = 30\<rparr>
        \<lparr>prevYellowLED = 30, prevWhiteLED = 19, inFallbackMode = True\<rparr> =
   Some (\<lparr>yellowLED = 27, whiteLED = 17\<rparr>,
         \<lparr>prevYellowLED = 27, prevWhiteLED = 17, inFallbackMode = True\<rparr>) \<and>
   isTooDark \<lparr>rawR = 10, rawG = 10, rawB = 10, rawC = 30\<rparr> \<and>
   inFallbackMode \<lparr>prevYellowLED = 27, prevWhiteLED = 17, inFallbackMode = True\<rparr>"
  using fallback_exit [OF loop_dim_fallback] loop_dim_fallback dim_reading(4) by simp

lemma ratio_fallback_irrelevant:
  "currentYellowRatio d (m\<lparr>inFallbackMode := fb\<rparr>) = currentYellowRatio d m"
  by (simp add: currentYellowRatio_def total_def YOI_def WOI_def)

lemma band_low_pos: "- 1 < f32 (58 / 100)"
  by (simp add: band_consts)

lemma loop_in_band:
  assumes "\<not> isTooDark d" "\<not> isTooBright d"
    and "f32 (58 / 100) \<le> currentYellowRatio d m" "currentYellowRatio d m \<le> f32 (62 / 100)"
  shows "loop d m = Some (\<lparr>yellowLED = prevYellowLED m, whiteLED = prevWhiteLED m\<rparr>,
                          m\<lparr>inFallbackMode := False\<rparr>)"
proof -
  from assms(3) band_low_pos have "currentYellowRatio d m \<noteq> - 1" by linarith
  moreover from assms(3,4) have "comfort_band d m = (prevYellowLED m, prevWhiteLED m)"
    by (simp add: comfort_band_def Let_def not_less [symmetric])
  ultimately show ?thesis using assms(1,2)
    by (simp add: loop_def Let_def)
qed

text \<open>
  C8. For a reading that is neither too dark nor too bright and a ratio already inside the
  band, a run of \<^verbatim>\<open>loop\<close> writes the stored levels unchanged and leaves them stored
  (clearing the fallback flag); so any number of runs with that reading write the same
  levels every time and end in the same memory.
\<close>

theorem comfort_in_band_idempotent:
  assumes "\<not> isTooDark d" and "\<not> isTooBright d"
    and "f32 (58 / 100) \<le> currentYellowRatio d m"
    and "currentYellowRatio d m \<le> f32 (62 / 100)"
  shows "loops (replicate (Suc n) d) m =
         Some (replicate (Suc n) \<lparr>yellowLED = prevYellowLED m, whiteLED = prevWhiteLED m\<rparr>,
               m\<lparr>inFallbackMode := False\<rparr>)"
  using assms(3,4)
proof (induction n arbitrary: m)
  case 0
  from loop_in_band [OF assms(1,2) 0] show ?case by simp
next
  case (Suc n)
  let ?m = "m\<lparr>inFallbackMode := False\<rparr>"
  have "f32 (58 / 100) \<le> currentYellowRatio d ?m" "currentYellowRatio d ?m \<le> f32 (62 / 100)"
    using Suc.prems by (simp_all only: ratio_fallback_irrelevant)
  from Suc.IH [OF this] loop_in_band [OF assms(1,2) Suc.prems]
  show ?case by simp
qed

theorem comfort_in_band_idempotent_witness:
  "\<not> isTooDark \<lparr>rawR = 290, rawG = 290, rawB = 200, rawC = 780\<rparr> \<and>
   \<not> isTooBright \<lparr>rawR = 290, rawG = 290, rawB = 200, rawC = 780\<rparr> \<and>
   f32 (58 / 100) \<le> currentYellowRatio \<lparr>rawR = 290, rawG = 290, rawB = 200, rawC = 780\<rparr>
        \<lparr>prevYellowLED = 30, prevWhiteLED = 19, inFallbackMode = True\<rparr> \<and>
   currentYellowRatio \<lparr>rawR = 290, rawG = 290, rawB = 200, rawC = 780\<rparr>
        \<lparr>prevYellowLED = 30, prevWhiteLED = 19, inFallbackMode = True\<rparr> \<le> f32 (62 / 100) \<and>
   loops [\<lparr>rawR = 290, rawG = 290, rawB = 200, rawC = 780\<rparr>,
          \<lparr>rawR = 290, rawG = 290, rawB = 200, rawC = 780\<rparr>,
          \<lparr>rawR = 290, rawG = 290, rawB = 200, rawC = 780\<rparr>]
         \<lparr>prevYellowLED = 30, prevWhiteLED = 19, inFallbackMode = True\<rparr> =
   Some ([\<lparr>yellowLED = 30, whiteLED = 19\<rparr>, \<lparr>yellowLED = 30, whiteLED = 19\<rparr>,
          \<lparr>yellowLED = 30, whiteLED = 19\<rparr>],
         \<lparr>prevYellowLED = 30, prevWhiteLED = 19, inFallbackMode = False\<rparr>)"
proof -
  have lo: "f32 (58 / 100) \<le> currentYellowRatio \<lparr>rawR = 290, rawG = 290, rawB = 200, rawC = 780\<rparr>
        \<lparr>prevYellowLED = 30, prevWhiteLED = 19, inFallbackMode = True\<rparr>"
    and hi: "currentYellowRatio \<lparr>rawR = 290, rawG = 290, rawB = 200, rawC = 780\<rparr>
        \<lparr>prevYellowLED = 30, prevWhiteLED = 19, inFallbackMode = True\<rparr> \<le> f32 (62 / 100)"
    by (simp_all add: ratio_warm band_consts)
  have three: "replicate (Suc 2) x = [x, x, x]" for x :: 'a
    by (simp add: numeral_2_eq_2)
  from comfort_in_band_idempotent [OF warm_reading(4,5) lo hi, of 2]
  show ?thesis using warm_reading(4,5) lo hi by (simp only: three) simp
qed

text \<open>
  C9. In the comfort band (ratio defined, reading not too dark, and not too bright unless
  the fallback flag overrides it), a ratio below the band leaves the white level exactly as
  stored and a ratio above the band leaves the yellow level exactly as stored.
\<close>

theorem comfort_band_changes_one_channel:
  assumes "loop d m = Some (out, m')"
    and "currentYellowRatio d m \<noteq> - 1" and "\<not> isTooDark d"
    and "inFallbackMode m \<or> \<not> isTooBright d"
  shows "(currentYellowRatio d m < f32 (58 / 100) \<longrightarrow>
            whiteLED out = prevWhiteLED m \<and> prevWhiteLED m' = prevWhiteLED m) \<and>
         (currentYellowRatio d m > f32 (62 / 100) \<longrightarrow>
            yellowLED out = prevYellowLED m \<and> prevYellowLED m' = prevYellowLED m)"
proof -
  have "f32 (58 / 100) < f32 (62 / 100)" by (simp add: band_consts)
  then have band: "currentYellowRatio d m > f32 (62 / 100) \<Longrightarrow>
      \<not> currentYellowRatio d m < f32 (58 / 100)" by linarith
  have nb: "(if inFallbackMode m \<and> isTooBright d then False else isTooBright d) = False"
    using assms(4) by auto
  from assms(1,2,3) have "out = \<lparr>yellowLED = fst (comfort_band d m), whiteLED = snd (comfort_band d m)\<rparr>"
    and "prevYellowLED m' = fst (comfort_band d m)" and "prevWhiteLED m' = snd (comfort_band d m)"
    by (auto simp: loop_def Let_def nb split: prod.splits)
  then show ?thesis using band
    by (auto simp: comfort_band_def Let_def)
qed

theorem comfort_band_changes_one_channel_witness:
  "loop \<lparr>rawR = 100, rawG = 100, rawB = 100, rawC = 300\<rparr>
        \<lparr>prevYellowLED = 29, prevWhiteLED = 17, inFallbackMode = False\<rparr> =
   Some (\<lparr>yellowLED = 31, whiteLED = 17\<rparr>,
         \<lparr>prevYellowLED = 31, prevWhiteLED = 17, inFallbackMode = False\<rparr>) \<and>
   currentYellowRatio \<lparr>rawR = 100, rawG = 100, rawB = 100, rawC = 300\<rparr>
        \<lparr>prevYellowLED = 29, prevWhiteLED = 17, inFallbackMode = False\<rparr> \<noteq> - 1 \<and>
   \<not> isTooDark \<lparr>rawR = 100, rawG = 100, rawB = 100, rawC = 300\<rparr> \<and>
   \<not> isTooBright \<lparr>rawR = 100, rawG = 100, rawB = 100, rawC = 300\<rparr> \<and>
   currentYellowRatio \<lparr>rawR = 100, rawG = 100, rawB = 100, rawC = 300\<rparr>
        \<lparr>prevYellowLED = 29, prevWhiteLED = 17, inFallbackMode = False\<rparr> < f32 (58 / 100) \<and>
   whiteLED \<lparr>yellowLED = 31, whiteLED = 17\<rparr> =
     prevWhiteLED \<lparr>prevYellowLED = 29, prevWhiteLED = 17, inFallbackMode = False\<rparr> \<and>
   yellowLED \<lparr>yellowLED = 31, whiteLED = 17\<rparr> \<noteq>
     prevYellowLED \<lparr>prevYellowLED = 29, prevWhiteLED = 17, inFallbackMode = False\<rparr>"
proof -
  have r: "currentYellowRatio \<lparr>rawR = 100, rawG = 100, rawB = 100, rawC = 300\<rparr>
        \<lparr>prevYellowLED = 29, prevWhiteLED = 17, inFallbackMode = False\<rparr> \<noteq> - 1"
    and lt: "currentYellowRatio \<lparr>rawR = 100, rawG = 100, rawB = 100, rawC = 300\<rparr>
        \<lparr>prevYellowLED = 29, prevWhiteLED = 17, inFallbackMode = False\<rparr> < f32 (58 / 100)"
    by (simp_all add: ratio_room band_consts)
  have nb: "inFallbackMode \<lparr>prevYellowLED = 29, prevWhiteLED = 17, inFallbackMode = False\<rparr> \<or>
      \<not> isTooBright \<lparr>rawR = 100, rawG = 100, rawB = 100, rawC = 300\<rparr>"
    using room_reading(5) by simp
  from comfort_band_changes_one_channel [OF loop_room r room_reading(4) nb]
  show ?thesis using loop_room r lt room_reading(4,5) by simp
qed

section \<open>Claims about the SystemC model\<close>

text \<open>
  C6. The intensity that \<^verbatim>\<open>control_logic\<close> passes on is the measured one inside
  \<open>[200, 1300]\<close>, 200 below it and 1300 above it, the bounds being fixed in the code and not
  arguments; the measured intensities 50, 5000 and 500 give 200, 1300 and 500. The
  temperature is passed on as measured.
\<close>

theorem control_logic_clamps:
  "(measured_lux < 200 \<longrightarrow> fst (control_logic measured_lux measured_temp) = 200) \<and>
   (measured_lux > 1300 \<longrightarrow> fst (control_logic measured_lux measured_temp) = 1300) \<and>
   (200 \<le> measured_lux \<and> measured_lux \<le> 1300 \<longrightarrow>
      fst (control_logic measured_lux measured_temp) = measured_lux) \<and>
   200 \<le> fst (control_logic measured_lux measured_temp) \<and>
   fst (control_logic measured_lux measured_temp) \<le> 1300 \<and>
   snd (control_logic measured_lux measured_temp) = measured_temp \<and>
   fst (control_logic 50 measured_temp) = 200 \<and>
   fst (control_logic 5000 measured_temp) = 1300 \<and>
   fst (control_logic 500 measured_temp) = 500"
  by (simp add: control_logic_def Let_def)

theorem control_logic_clamps_witness:
  "(50 :: real) < 200 \<and> control_logic 50 4500 = (200, 4500) \<and>
   (5000 :: real) > 1300 \<and> control_logic 5000 4500 = (1300, 4500) \<and>
   (200 :: real) \<le> 500 \<and> (500 :: real) \<le> 1300 \<and> control_logic 500 4500 = (500, 4500)"
proof -
  from control_logic_clamps [of 50 4500] control_logic_clamps [of 5000 4500]
    control_logic_clamps [of 500 4500]
  show ?thesis by (simp add: prod_eq_iff)
qed

text \<open>
  The measured intensities 50 and 5000 are not passed on as 150 and 1000, the bounds of the
  sketch.
\<close>

theorem control_logic_not_150_1000:
  "fst (control_logic 50 4500) \<noteq> 150 \<and> fst (control_logic 5000 4500) \<noteq> 1000"
  by (simp add: control_logic_def Let_def)

section \<open>The lamp ratios\<close>

lemma f32_mono: "0 \<le> x \<Longrightarrow> x \<le> y \<Longrightarrow> f32 x \<le> f32 y"
  by (simp add: f32_def flp_mono)

lemma f32_le_1: "0 \<le> x \<Longrightarrow> x \<le> 1 \<Longrightarrow> f32 x \<le> 1"
  by (simp add: f32_def flp_le_1)

lemma f32_rel_error: "\<bar>f32 x - x\<bar> \<le> \<bar>x\<bar> / 2 ^ 24"
  unfolding f32_def by (rule flp_rel_error)

lemma factor_range:
  assumes "warm < temp" "temp < cool"
  shows "0 \<le> f32 (f32 (of_int (temp - warm)) / f32 (of_int (cool - warm)))"
    and "f32 (f32 (of_int (temp - warm)) / f32 (of_int (cool - warm))) \<le> 1"
proof -
  define a where "a = f32 (of_int (temp - warm))"
  define b where "b = f32 (of_int (cool - warm))"
  have a: "0 < a" unfolding a_def using assms(1) by (intro f32_pos) simp
  have ab: "a \<le> b" unfolding a_def b_def using assms by (intro f32_mono) simp_all
  from a ab have q: "0 \<le> a / b" "a / b \<le> 1" by simp_all
  show "0 \<le> f32 (f32 (of_int (temp - warm)) / f32 (of_int (cool - warm)))"
    using q(1) unfolding a_def b_def by (rule f32_nonneg)
  show "f32 (f32 (of_int (temp - warm)) / f32 (of_int (cool - warm))) \<le> 1"
    using q unfolding a_def b_def by (rule f32_le_1)
qed

lemma complement_error:
  assumes "0 \<le> x" "x \<le> 1"
  shows "0 \<le> f32 (f64 (1 - x))" and "\<bar>x + f32 (f64 (1 - x)) - 1\<bar> \<le> 1 / 2 ^ 24"
proof -
  define d where "d = f64 (1 - x)"
  have d: "0 \<le> d" "d \<le> 1"
    using assms by (simp_all add: d_def f64_def flp_nonneg flp_le_1)
  have "\<bar>d - (1 - x)\<bar> \<le> 1 / 2 ^ (53 + 1)"
    unfolding d_def f64_def using assms by (intro flp_error_below_1) simp_all
  then have e1: "\<bar>d - (1 - x)\<bar> \<le> 1 / 2 ^ 54" by simp
  have "\<bar>f32 d - d\<bar> \<le> 1 / 2 ^ (24 + 1)"
    unfolding f32_def using d by (intro flp_error_below_1) simp_all
  then have e2: "\<bar>f32 d - d\<bar> \<le> 1 / 2 ^ 25" by simp
  have "\<bar>x + f32 d - 1\<bar> \<le> \<bar>f32 d - d\<bar> + \<bar>d - (1 - x)\<bar>" by linarith
  also have "\<dots> \<le> 1 / 2 ^ 25 + 1 / 2 ^ 54" using e1 e2 by (rule add_mono [OF _ _, rotated])
  also have "\<dots> \<le> 1 / 2 ^ 24" by simp
  finally show "\<bar>x + f32 (f64 (1 - x)) - 1\<bar> \<le> 1 / 2 ^ 24" by (simp add: d_def)
  show "0 \<le> f32 (f64 (1 - x))" using d(1) unfolding d_def by (rule f32_nonneg)
qed

lemma lamp_ratios_sum:
  "0 \<le> fst (lamp_ratios temp warm cool) \<and> 0 \<le> snd (lamp_ratios temp warm cool) \<and>
   \<bar>fst (lamp_ratios temp warm cool) + snd (lamp_ratios temp warm cool) - 1\<bar> \<le> 1 / 2 ^ 24"
proof (cases "temp \<le> warm \<or> cool \<le> temp")
  case True
  then show ?thesis by (auto simp: lamp_ratios_def)
next
  case False
  then have r: "warm < temp" "temp < cool" by simp_all
  from factor_range [OF r] complement_error [OF factor_range [OF r]] False
  show ?thesis by (simp add: lamp_ratios_def Let_def)
qed

text \<open>The sum of the two ratios, added in single precision, is exactly 1.\<close>

lemma f32_near_1:
  assumes "1 - 1 / 2 ^ 25 \<le> x" "x \<le> 1 + 1 / 2 ^ 24"
  shows "f32 x = 1"
proof (cases "1 \<le> x")
  case True
  then have x: "0 < x" by simp
  have e: "expo x = 0" using True assms(2) by (intro expo_unique) (simp_all add: pow2_0)
  have u: "pow2 (expo x - 23) = 1 / 8388608" by (simp add: e pow2_def)
  have "\<lfloor>x * 8388608\<rfloor> = 8388608" using True assms(2) by (intro floor_unique) simp_all
  then have "rne (x * 8388608) = 8388608"
    using assms(2) by (simp add: rne_def Let_def)
  then show ?thesis
    by (simp add: f32_def flp_pos_eq [OF x] u)
next
  case False
  with assms(1) have x: "0 < x" by simp
  have e: "expo x = - 1" using False assms(1) by (intro expo_unique) (simp_all add: pow2_def)
  have u: "pow2 (expo x - 23) = 1 / 16777216" by (simp add: e pow2_def)
  have "\<lfloor>x * 16777216\<rfloor> = 16777215" using False assms(1) by (intro floor_unique) simp_all
  then have "rne (x * 16777216) = 16777216"
    using assms(1) by (simp add: rne_def Let_def)
  then show ?thesis
    by (simp add: f32_def flp_pos_eq [OF x] u)
qed

lemma flp_exact:
  assumes "0 < M" "M < 2 ^ p"
  shows "flp p (of_int M * pow2 j) = of_int M * pow2 j"
proof -
  define m where "m = expo (of_int M)"
  have M: "(0::real) < of_int M" using assms(1) by simp
  have b: "pow2 m \<le> of_int M" "of_int M < 2 * pow2 m"
    using expo_bounds [OF M] by (simp_all add: m_def)
  have "(of_int M :: real) < of_int (2 ^ p)" using assms(2) by (simp only: of_int_less_iff)
  then have "(of_int M :: real) < 2 ^ p" by simp
  moreover have "pow2 (int p) = 2 ^ p" by (simp add: pow2_def)
  ultimately have "pow2 m < pow2 (int p)" using b(1) by linarith
  then have mp: "m < int p" by (rule pow2_less_cancel)
  have "(1::real) \<le> of_int M" using assms(1) by simp
  moreover have "pow2 (- 1) = 1 / 2" by (simp add: pow2_def)
  ultimately have "pow2 (- 1) < pow2 m" using b(2) by linarith
  then have m0: "- 1 < m" by (rule pow2_less_cancel)
  define x where "x = of_int M * pow2 j"
  have x: "0 < x" using M pow2_pos [of j] by (simp add: x_def)
  have e: "expo x = m + j"
    using b pow2_pos [of j] by (intro expo_unique) (simp_all add: x_def pow2_add)
  define k where "k = nat (int p - 1 - m)"
  define u where "u = pow2 (expo x - int p + 1)"
  have u: "0 < u" by (simp add: u_def pow2_pos)
  have "pow2 j = pow2 (int p - 1 - m) * u"
    by (simp add: u_def e pow2_add [symmetric])
  moreover have "pow2 (int p - 1 - m) = of_int (2 ^ k)"
    using mp by (simp add: k_def pow2_nat)
  ultimately have xu: "x = of_int (M * 2 ^ k) * u" by (simp add: x_def)
  then have "x / u = of_int (M * 2 ^ k)" using u by simp
  then have "rne (x / u) = M * 2 ^ k" by (simp only: rne_of_int)
  then have "flp p x = of_int (M * 2 ^ k) * u"
    by (simp add: flp_pos_eq [OF x] u_def)
  then have "flp p x = x" by (simp only: xu [symmetric])
  then show ?thesis by (simp only: x_def)
qed

lemma f32_grid:
  assumes "pow2 (- 29) \<le> z"
  shows "\<exists>N. f32 z = of_int N * pow2 (- 52)"
proof -
  have z: "0 < z" using assms pow2_pos [of "- 29"] by linarith
  have "pow2 (- 29) < pow2 (expo z + 1)"
    using expo_bounds [OF z] assms by (simp add: pow2_Suc)
  then have "- 29 < expo z + 1" by (rule pow2_less_cancel)
  then have "- 52 \<le> expo z - int 24 + 1" by simp
  from pow2_split [OF this]
  have "f32 z = of_int (rne (z / pow2 (expo z - int 24 + 1)) *
      2 ^ nat (expo z - int 24 + 1 - - 52)) * pow2 (- 52)"
    by (simp add: f32_def flp_pos_eq [OF z])
  then show ?thesis ..
qed

lemma f64_complement_exact:
  assumes "w = of_int N * pow2 (- 52)" "0 < w" "w < 1"
  shows "f64 (1 - w) = 1 - w"
proof -
  have p: "pow2 (- 52) = 1 / 2 ^ 52" by (simp add: pow2_def)
  have "(0::real) < of_int N" using assms(1,2) pow2_pos [of "- 52"] by (simp add: zero_less_mult_iff)
  then have N: "0 < N" by simp
  have "of_int N < (2 ^ 52 :: real)" using assms(1,3) by (simp add: p)
  then have "(of_int N :: real) < of_int (2 ^ 52)" by simp
  then have N2: "N < 2 ^ 52" by (simp only: of_int_less_iff)
  have "1 - w = of_int (2 ^ 52 - N) * pow2 (- 52)"
    by (simp add: assms(1) p field_simps)
  moreover have "flp 53 (of_int (2 ^ 52 - N) * pow2 (- 52)) = of_int (2 ^ 52 - N) * pow2 (- 52)"
    using N N2 by (intro flp_exact) simp_all
  ultimately show ?thesis by (simp add: f64_def)
qed

lemma complement_sum_rounds_to_1:
  assumes "0 < z" "z \<le> 1"
  shows "f32 (f32 z + f32 (f64 (1 - f32 z))) = 1"
proof -
  define w where "w = f32 z"
  have w: "0 < w" "w \<le> 1" using assms by (simp_all add: w_def f32_pos f32_le_1)
  have "f32 (w + f32 (f64 (1 - w))) = 1"
  proof (cases "pow2 (- 29) \<le> z")
    case True
    from f32_grid [OF True] obtain N where N: "w = of_int N * pow2 (- 52)"
      by (auto simp: w_def)
    show ?thesis
    proof (cases "w = 1")
      case True
      have "f32 (f64 0) = 0" by (simp add: f64_def f32_def flp_0)
      moreover have "f32 1 = 1" by (simp add: f32_def flp_1)
      ultimately show ?thesis by (simp add: True)
    next
      case False
      with w have w1: "w < 1" by simp
      have ex: "f64 (1 - w) = 1 - w" using N w(1) w1 by (rule f64_complement_exact)
      have "\<bar>f32 (1 - w) - (1 - w)\<bar> \<le> 1 / 2 ^ (24 + 1)"
        unfolding f32_def using w by (intro flp_error_below_1) simp_all
      then have "\<bar>f32 (1 - w) - (1 - w)\<bar> \<le> 1 / 2 ^ 25" by simp
      moreover have "(1::real) / 2 ^ 25 \<le> 1 / 2 ^ 24" by simp
      ultimately have "1 - 1 / 2 ^ 25 \<le> w + f32 (1 - w)" "w + f32 (1 - w) \<le> 1 + 1 / 2 ^ 24"
        by linarith+
      then have "f32 (w + f32 (1 - w)) = 1" by (rule f32_near_1)
      then show ?thesis by (simp only: ex)
    qed
  next
    case False
    then have "z \<le> pow2 (- 29)" by simp
    with assms(1) have "w \<le> f32 (pow2 (- 29))" unfolding w_def by (intro f32_mono) simp_all
    moreover have "f32 (pow2 (- 29)) = 1 / 2 ^ 29" by (simp add: fl_eval)
    ultimately have w29: "w \<le> 1 / 2 ^ 29" by simp
    have "flp 53 (1 - 1 / 2 ^ 29) \<le> flp 53 (1 - w)"
      using w29 by (intro flp_mono) simp_all
    moreover have "flp 53 (1 - 1 / 2 ^ 29) = 1 - 1 / 2 ^ 29" by (simp add: fl_eval)
    moreover have "flp 53 (1 - w) \<le> 1" using w by (intro flp_le_1) simp_all
    ultimately have d: "1 - 1 / 2 ^ 29 \<le> f64 (1 - w)" "f64 (1 - w) \<le> 1"
      by (simp_all add: f64_def)
    have y: "f32 (f64 (1 - w)) = 1" using d by (intro f32_near_1) simp_all
    have "f32 (w + 1) = 1" using w w29 by (intro f32_near_1) simp_all
    then show ?thesis by (simp only: y)
  qed
  then show ?thesis unfolding w_def .
qed

lemma lamp_ratios_float_sum:
  "f32 (fst (lamp_ratios temp warm cool) + snd (lamp_ratios temp warm cool)) = 1"
proof (cases "temp \<le> warm \<or> cool \<le> temp")
  case True
  then show ?thesis by (auto simp: lamp_ratios_def f32_def flp_1)
next
  case False
  then have r: "warm < temp" "temp < cool" by simp_all
  define a where "a = f32 (of_int (temp - warm))"
  define b where "b = f32 (of_int (cool - warm))"
  have a: "0 < a" unfolding a_def using r(1) by (intro f32_pos) simp
  have ab: "a \<le> b" unfolding a_def b_def using r by (intro f32_mono) simp_all
  from a ab have "0 < a / b" "a / b \<le> 1" by simp_all
  from complement_sum_rounds_to_1 [OF this] False
  show ?thesis by (simp add: lamp_ratios_def Let_def a_def b_def)
qed

lemma lamp_ratios_4500:
  "lamp_ratios 4500 2700 6500 = (15894205 / 2 ^ 25, 4415057 / 2 ^ 23)"
  by (simp add: lamp_ratios_def fl_eval)

lemma lamp_ratios_4600: "lamp_ratios 4600 2700 6500 = (1 / 2, 1 / 2)"
  by (simp add: lamp_ratios_def fl_eval)

text \<open>
  C5. For \<open>warm < cool\<close> the ratios are \<open>(0, 1)\<close> up to \<open>warm\<close> and \<open>(1, 0)\<close> from \<open>cool\<close>
  on; in between the white ratio is the single-precision quotient
  \<open>(temp - warm) / (cool - warm)\<close> and the yellow ratio is one minus the white ratio, rounded
  to single precision. Both ratios are non-negative; their sum is 1 when added in single
  precision, exactly 1 in the two saturated cases and within \<open>2\<^sup>-\<^sup>2\<^sup>4\<close> of 1 as a real number.
  At 2700, 6500 and 1500 kelvin (limits 2700 and 6500) the ratios are \<open>(0, 1)\<close>, \<open>(1, 0)\<close>
  and \<open>(0, 1)\<close>; at 4500 kelvin they are about \<open>(0.4737, 0.5263)\<close>, and \<open>(0.5, 0.5)\<close> is
  reached at the midpoint, 4600 kelvin.
\<close>

theorem lamp_ratios_piecewise:
  assumes "warm < cool"
  shows "(temp \<le> warm \<longrightarrow> lamp_ratios temp warm cool = (0, 1)) \<and>
         (cool \<le> temp \<longrightarrow> lamp_ratios temp warm cool = (1, 0)) \<and>
         (warm < temp \<and> temp < cool \<longrightarrow>
            fst (lamp_ratios temp warm cool) =
              f32 (f32 (of_int (temp - warm)) / f32 (of_int (cool - warm))) \<and>
            snd (lamp_ratios temp warm cool) =
              f32 (f64 (1 - fst (lamp_ratios temp warm cool)))) \<and>
         (temp \<le> warm \<or> cool \<le> temp \<longrightarrow>
            fst (lamp_ratios temp warm cool) + snd (lamp_ratios temp warm cool) = 1) \<and>
         0 \<le> fst (lamp_ratios temp warm cool) \<and> 0 \<le> snd (lamp_ratios temp warm cool) \<and>
         f32 (fst (lamp_ratios temp warm cool) + snd (lamp_ratios temp warm cool)) = 1 \<and>
         \<bar>fst (lamp_ratios temp warm cool) + snd (lamp_ratios temp warm cool) - 1\<bar> \<le> 1 / 2 ^ 24 \<and>
         lamp_ratios 4500 2700 6500 = (15894205 / 2 ^ 25, 4415057 / 2 ^ 23) \<and>
         lamp_ratios 4600 2700 6500 = (1 / 2, 1 / 2) \<and>
         lamp_ratios 2700 2700 6500 = (0, 1) \<and>
         lamp_ratios 6500 2700 6500 = (1, 0) \<and>
         lamp_ratios 1500 2700 6500 = (0, 1)"
proof -
  have "temp \<le> warm \<longrightarrow> lamp_ratios temp warm cool = (0, 1)"
    by (simp add: lamp_ratios_def)
  moreover have "cool \<le> temp \<longrightarrow> lamp_ratios temp warm cool = (1, 0)"
    using assms by (simp add: lamp_ratios_def)
  moreover have "warm < temp \<and> temp < cool \<longrightarrow>
            fst (lamp_ratios temp warm cool) =
              f32 (f32 (of_int (temp - warm)) / f32 (of_int (cool - warm))) \<and>
            snd (lamp_ratios temp warm cool) =
              f32 (f64 (1 - fst (lamp_ratios temp warm cool)))"
    by (simp add: lamp_ratios_def Let_def)
  moreover have "temp \<le> warm \<or> cool \<le> temp \<longrightarrow>
            fst (lamp_ratios temp warm cool) + snd (lamp_ratios temp warm cool) = 1"
    by (auto simp: lamp_ratios_def)
  moreover have "lamp_ratios 2700 2700 6500 = (0, 1)" "lamp_ratios 6500 2700 6500 = (1, 0)"
    "lamp_ratios 1500 2700 6500 = (0, 1)"
    by (simp_all add: lamp_ratios_def)
  ultimately show ?thesis
    using lamp_ratios_sum [of temp warm cool] lamp_ratios_float_sum [of temp warm cool]
      lamp_ratios_4500 lamp_ratios_4600
    by (simp only: simp_thms)
qed

theorem lamp_ratios_piecewise_witness:
  "(2700 :: int) < 6500 \<and> (2700 :: int) < 4500 \<and> (4500 :: int) < 6500 \<and>
   fst (lamp_ratios 4500 2700 6500) = f32 (f32 (of_int (4500 - 2700)) / f32 (of_int (6500 - 2700))) \<and>
   snd (lamp_ratios 4500 2700 6500) = f32 (f64 (1 - fst (lamp_ratios 4500 2700 6500))) \<and>
   (1500 :: int) \<le> 2700 \<and> lamp_ratios 1500 2700 6500 = (0, 1) \<and>
   (6500 :: int) \<le> 7000 \<and> lamp_ratios 7000 2700 6500 = (1, 0) \<and>
   fst (lamp_ratios 7000 2700 6500) + snd (lamp_ratios 7000 2700 6500) = 1"
proof -
  have h: "(2700 :: int) < 6500" by simp
  from lamp_ratios_piecewise [OF h, of 4500] lamp_ratios_piecewise [OF h, of 7000]
  show ?thesis by simp
qed

text \<open>
  At 4500 kelvin the ratios are not \<open>(0.5, 0.5)\<close>, and as real numbers they do not add up
  to 1.
\<close>

theorem lamp_ratios_4500_not_half:
  "lamp_ratios 4500 2700 6500 \<noteq> (1 / 2, 1 / 2) \<and>
   fst (lamp_ratios 4500 2700 6500) + snd (lamp_ratios 4500 2700 6500) \<noteq> 1"
  by (simp add: lamp_ratios_4500)

section \<open>The lamp currents\<close>

lemma two_roundings:
  "\<bar>f32 (f32 (r * t) * l) - r * t * l\<bar> \<le> (2 / 2 ^ 24 + 1 / 2 ^ 48) * \<bar>r * t * l\<bar>"
proof -
  define e :: real where "e = 1 / 2 ^ 24"
  define A where "A = r * t"
  define A' where "A' = f32 A"
  define B where "B = A' * l"
  have e: "0 \<le> e" by (simp add: e_def)
  have a: "\<bar>A' - A\<bar> \<le> e * \<bar>A\<bar>"
    using f32_rel_error [of A] by (simp add: A'_def e_def)
  have b: "\<bar>f32 B - B\<bar> \<le> e * \<bar>B\<bar>"
    using f32_rel_error [of B] by (simp add: e_def)
  have "\<bar>A'\<bar> \<le> \<bar>A\<bar> + e * \<bar>A\<bar>" using a by linarith
  then have "\<bar>A'\<bar> * \<bar>l\<bar> \<le> (\<bar>A\<bar> + e * \<bar>A\<bar>) * \<bar>l\<bar>"
    by (rule mult_right_mono) simp
  then have B: "\<bar>B\<bar> \<le> (1 + e) * \<bar>A * l\<bar>"
    by (simp add: B_def abs_mult algebra_simps)
  have "e * \<bar>B\<bar> \<le> e * ((1 + e) * \<bar>A * l\<bar>)" using B e by (rule mult_left_mono)
  with b have b': "\<bar>f32 B - B\<bar> \<le> e * ((1 + e) * \<bar>A * l\<bar>)" by linarith
  have "\<bar>A' - A\<bar> * \<bar>l\<bar> \<le> e * \<bar>A\<bar> * \<bar>l\<bar>" using a by (rule mult_right_mono) simp
  then have c: "\<bar>B - A * l\<bar> \<le> e * \<bar>A * l\<bar>"
    by (simp add: B_def abs_mult [symmetric] algebra_simps)
  have "\<bar>f32 B - A * l\<bar> \<le> \<bar>f32 B - B\<bar> + \<bar>B - A * l\<bar>" by linarith
  also have "\<dots> \<le> e * ((1 + e) * \<bar>A * l\<bar>) + e * \<bar>A * l\<bar>" using b' c by linarith
  also have "\<dots> = (2 * e + e * e) * \<bar>A * l\<bar>" by (simp add: algebra_simps)
  finally show ?thesis by (simp add: B_def A'_def A_def e_def)
qed

lemma currents_error:
  assumes "0 \<le> wr" "0 \<le> yr" "\<bar>wr + yr - 1\<bar> \<le> 1 / 2 ^ 24"
  shows "\<bar>f32 (f32 (wr * t) * l) + f32 (f32 (yr * t) * l) - l * t\<bar> \<le> \<bar>l * t\<bar> / 2 ^ 22"
proof -
  define e :: real where "e = 1 / 2 ^ 24"
  define k :: real where "k = 2 / 2 ^ 24 + 1 / 2 ^ 48"
  define T where "T = \<bar>l * t\<bar>"
  have T: "0 \<le> T" by (simp add: T_def)
  have k: "0 \<le> k" by (simp add: k_def)
  have w: "\<bar>f32 (f32 (wr * t) * l) - wr * t * l\<bar> \<le> k * (wr * T)"
    using two_roundings [of wr t l] assms(1)
    by (simp add: k_def T_def abs_mult algebra_simps)
  have y: "\<bar>f32 (f32 (yr * t) * l) - yr * t * l\<bar> \<le> k * (yr * T)"
    using two_roundings [of yr t l] assms(2)
    by (simp add: k_def T_def abs_mult algebra_simps)
  have "\<bar>wr + yr - 1\<bar> * T \<le> e * T" using assms(3) T unfolding e_def by (rule mult_right_mono)
  then have s: "\<bar>(wr + yr - 1) * (l * t)\<bar> \<le> e * T" by (simp add: T_def abs_mult)
  have "\<bar>wr + yr - 1\<bar> \<le> e" using assms(3) by (simp only: e_def)
  then have "wr + yr \<le> 1 + e" by linarith
  then have "(wr + yr) * T \<le> (1 + e) * T" using T by (rule mult_right_mono)
  then have "k * ((wr + yr) * T) \<le> k * ((1 + e) * T)" using k by (rule mult_left_mono)
  then have wy: "k * (wr * T) + k * (yr * T) \<le> k * (1 + e) * T" by (simp add: algebra_simps)
  have "f32 (f32 (wr * t) * l) + f32 (f32 (yr * t) * l) - l * t =
        (f32 (f32 (wr * t) * l) - wr * t * l) + (f32 (f32 (yr * t) * l) - yr * t * l) +
        (wr + yr - 1) * (l * t)"
    by (simp add: algebra_simps)
  then have "\<bar>f32 (f32 (wr * t) * l) + f32 (f32 (yr * t) * l) - l * t\<bar> \<le>
        \<bar>f32 (f32 (wr * t) * l) - wr * t * l\<bar> + \<bar>f32 (f32 (yr * t) * l) - yr * t * l\<bar> +
        \<bar>(wr + yr - 1) * (l * t)\<bar>"
    by linarith
  also have "\<dots> \<le> k * (1 + e) * T + e * T" using w y s wy by linarith
  also have "\<dots> = (k * (1 + e) + e) * T" by (simp add: algebra_simps)
  also have "\<dots> \<le> (1 / 2 ^ 22) * T"
    using T by (intro mult_right_mono) (simp_all add: k_def e_def)
  finally show ?thesis by (simp add: T_def)
qed

subsection \<open>The currents inside the normal range\<close>

lemma flp_ge_pow2:
  assumes "pow2 k \<le> x" "0 < p"
  shows "pow2 k \<le> flp p x"
proof -
  have x: "0 < x" using assms(1) pow2_pos [of k] by linarith
  have "pow2 k < pow2 (expo x + 1)" using expo_bounds [OF x] assms(1) by (simp add: pow2_Suc)
  then have "k < expo x + 1" by (rule pow2_less_cancel)
  then have "pow2 k \<le> pow2 (expo x)" by (intro pow2_mono) simp
  with flp_ge_expo [OF x assms(2)] show ?thesis by linarith
qed

lemma f32_ge_pow2: "pow2 k \<le> x \<Longrightarrow> pow2 k \<le> f32 x"
  by (simp add: f32_def flp_ge_pow2)

lemma float32_0: "float32 0 = 0"
  by (simp add: float32_def)

lemma float32_normal:
  assumes "pow2 (- 126) \<le> \<bar>x\<bar>"
  shows "float32 x = f32 x"
proof -
  have x: "0 < \<bar>x\<bar>" using assms pow2_pos [of "- 126"] by linarith
  have "pow2 (- 126) < pow2 (expo \<bar>x\<bar> + 1)"
    using expo_bounds [OF x] assms by (simp add: pow2_Suc)
  then have "- 126 < expo \<bar>x\<bar> + 1" by (rule pow2_less_cancel)
  then have "max (expo \<bar>x\<bar> - 23) (- 149) = expo \<bar>x\<bar> - int 24 + 1" by simp
  then show ?thesis by (simp add: float32_def f32_def flp_def)
qed

lemma lux_to_amps_eq: "lux_to_amps = 8589935 / 8589934592"
  by (simp add: lux_to_amps_def fl_eval)

lemma current_in_range:
  assumes "r = 0 \<or> pow2 (- 12) \<le> r" "200 \<le> t"
  shows "float32 (float32 (r * t) * lux_to_amps) = f32 (f32 (r * t) * lux_to_amps)"
proof (cases "r = 0")
  case True
  then show ?thesis by (simp add: float32_0 f32_0)
next
  case False
  with assms(1) have r: "pow2 (- 12) \<le> r" by simp
  have p: "pow2 (- 12) = 1 / 4096" "pow2 (- 5) = 1 / 32" "pow2 (- 15) = 1 / 32768"
    by (simp_all add: pow2_def)
  have "1 / 4096 * 200 \<le> r * t"
    using r assms(2) unfolding p by (intro mult_mono) simp_all
  then have rt: "pow2 (- 5) \<le> r * t" by (simp add: p)
  have "pow2 (- 126) \<le> pow2 (- 5)" by (intro pow2_mono) simp
  with rt have "pow2 (- 126) \<le> \<bar>r * t\<bar>" by linarith
  then have inner: "float32 (r * t) = f32 (r * t)" by (rule float32_normal)
  from rt have a: "1 / 32 \<le> f32 (r * t)" using f32_ge_pow2 [of "- 5" "r * t"] by (simp add: p)
  have "1 / 32 * (8589935 / 8589934592) \<le> f32 (r * t) * lux_to_amps"
    using a unfolding lux_to_amps_eq by (intro mult_right_mono) simp_all
  then have "pow2 (- 15) \<le> f32 (r * t) * lux_to_amps" by (simp add: p)
  moreover have "pow2 (- 126) \<le> pow2 (- 15)" by (intro pow2_mono) simp
  ultimately have "pow2 (- 126) \<le> \<bar>f32 (r * t) * lux_to_amps\<bar>" by linarith
  then have "float32 (f32 (r * t) * lux_to_amps) = f32 (f32 (r * t) * lux_to_amps)"
    by (rule float32_normal)
  then show ?thesis by (simp only: inner)
qed

lemma source_ratio_bounds:
  "(fst (lamp_ratios temp warm_temp cool_temp) = 0 \<or>
      pow2 (- 12) \<le> fst (lamp_ratios temp warm_temp cool_temp)) \<and>
   (snd (lamp_ratios temp warm_temp cool_temp) = 0 \<or>
      pow2 (- 12) \<le> snd (lamp_ratios temp warm_temp cool_temp))"
proof (cases "temp \<le> 2700 \<or> 6500 \<le> temp")
  case True
  then show ?thesis
    by (auto simp: lamp_ratios_def warm_temp_def cool_temp_def pow2_def)
next
  case False
  then have k: "1 \<le> temp - 2700" "temp - 2700 \<le> 3799" by simp_all
  define a where "a = f32 (of_int (temp - 2700))"
  define w where "w = f32 (a / 3800)"
  have p: "pow2 (- 12) = 1 / 4096" "pow2 0 = 1" by (simp_all add: pow2_def)
  have "(1::real) \<le> of_int (temp - 2700)" using k(1) by linarith
  then have a1: "1 \<le> a" unfolding a_def using f32_ge_pow2 [of 0 "of_int (temp - 2700)"]
    by (simp add: p)
  have "(of_int (temp - 2700) :: real) \<le> 3799" using k(2) by linarith
  moreover have "(0::real) \<le> of_int (temp - 2700)" using k(1) by linarith
  ultimately have "a \<le> f32 3799" unfolding a_def by (intro f32_mono)
  moreover have "f32 3799 = 3799" by (simp add: fl_eval)
  ultimately have a2: "a \<le> 3799" by simp
  have b: "f32 3800 = 3800" by (simp add: fl_eval)
  from a1 have "pow2 (- 12) \<le> a / 3800" by (simp add: p)
  then have w1: "pow2 (- 12) \<le> w" unfolding w_def by (rule f32_ge_pow2)
  have "w \<le> f32 (3799 / 3800)" unfolding w_def using a1 a2 by (intro f32_mono) simp_all
  moreover have "f32 (3799 / 3800) = 16772801 / 16777216" by (simp add: fl_eval)
  ultimately have "pow2 (- 12) \<le> 1 - w" by (simp add: p)
  then have "pow2 (- 12) \<le> f64 (1 - w)" by (simp add: f64_def flp_ge_pow2)
  then have y1: "pow2 (- 12) \<le> f32 (f64 (1 - w))" by (rule f32_ge_pow2)
  from False have "lamp_ratios temp warm_temp cool_temp = (w, f32 (f64 (1 - w)))"
    by (simp add: lamp_ratios_def warm_temp_def cool_temp_def Let_def w_def a_def b)
  with w1 y1 show ?thesis by simp
qed

lemma adjust_lamps_in_range:
  assumes "200 \<le> total_intensity"
  shows "adjust_lamps total_intensity temp_target =
         (f32 (f32 (fst (lamp_ratios temp_target warm_temp cool_temp) * total_intensity) * lux_to_amps),
          f32 (f32 (snd (lamp_ratios temp_target warm_temp cool_temp) * total_intensity) * lux_to_amps))"
  using source_ratio_bounds [of temp_target]
  by (simp add: adjust_lamps_def split_beta current_in_range [OF _ assms])

lemma adjust_lamps_200_4500:
  "adjust_lamps 200 4500 = (12715365 / 134217728, 14128183 / 134217728)"
  by (simp add: adjust_lamps_def warm_temp_def cool_temp_def lamp_ratios_4500 lux_to_amps_eq
      fl_eval)

lemma product_200:
  "f32 200 = 200" "lux_to_amps * 200 = 214748375 / 1073741824"
  "f32 (214748375 / 1073741824) = 13421773 / 67108864"
  by (simp_all add: lux_to_amps_eq fl_eval)

text \<open>
  An intensity in the subnormal range: the current is rounded to a multiple of \<open>2\<^sup>-\<^sup>1\<^sup>4\<^sup>9\<close> and
  is half a percent away from the product.
\<close>

lemma adjust_lamps_underflow:
  "adjust_lamps (71362 / 2 ^ 149) 7000 = (71 / 2 ^ 149, 0)"
  "\<bar>71 / 2 ^ 149 + 0 - lux_to_amps * (71362 / 2 ^ 149)\<bar>
     > \<bar>lux_to_amps * (71362 / 2 ^ 149)\<bar> / 2 ^ 22"
  by (simp_all add: adjust_lamps_def warm_temp_def cool_temp_def lamp_ratios_def lux_to_amps_eq
      fl_eval)

text \<open>
  C10. For a target intensity from 200 to 1300 lux, the range that the sensor produces and
  the control logic clamps to, and every temperature, the two currents add up to
  \<^verbatim>\<open>lux_to_amps\<close> times the target intensity up to the rounding of single-precision
  arithmetic: the difference is at most \<open>2\<^sup>-\<^sup>2\<^sup>2\<close> of that product. In the two saturated
  branches one current is 0 and the other is the single-precision product itself.
\<close>

theorem currents_partition_total_up_to_rounding:
  assumes "200 \<le> total_intensity" and "total_intensity \<le> 1300"
  shows "\<bar>fst (adjust_lamps total_intensity temp_target) +
          snd (adjust_lamps total_intensity temp_target) - lux_to_amps * total_intensity\<bar>
         \<le> \<bar>lux_to_amps * total_intensity\<bar> / 2 ^ 22 \<and>
         (temp_target \<le> warm_temp \<longrightarrow>
            adjust_lamps total_intensity temp_target =
              (0, f32 (f32 total_intensity * lux_to_amps))) \<and>
         (cool_temp \<le> temp_target \<longrightarrow>
            adjust_lamps total_intensity temp_target =
              (f32 (f32 total_intensity * lux_to_amps), 0))"
proof -
  note eq = adjust_lamps_in_range [OF assms(1), of temp_target]
  obtain wr yr where r: "lamp_ratios temp_target warm_temp cool_temp = (wr, yr)"
    by (cases "lamp_ratios temp_target warm_temp cool_temp")
  from lamp_ratios_sum [of temp_target warm_temp cool_temp] r
  have "0 \<le> wr" "0 \<le> yr" "\<bar>wr + yr - 1\<bar> \<le> 1 / 2 ^ 24" by simp_all
  from currents_error [OF this, of total_intensity lux_to_amps]
  have "\<bar>fst (adjust_lamps total_intensity temp_target) +
      snd (adjust_lamps total_intensity temp_target) - lux_to_amps * total_intensity\<bar>
      \<le> \<bar>lux_to_amps * total_intensity\<bar> / 2 ^ 22"
    by (simp add: eq r)
  moreover have "temp_target \<le> warm_temp \<longrightarrow>
      adjust_lamps total_intensity temp_target = (0, f32 (f32 total_intensity * lux_to_amps))"
    by (simp add: eq lamp_ratios_def f32_0)
  moreover have "cool_temp \<le> temp_target \<longrightarrow>
      adjust_lamps total_intensity temp_target = (f32 (f32 total_intensity * lux_to_amps), 0)"
    by (auto simp: eq lamp_ratios_def f32_0 warm_temp_def cool_temp_def)
  ultimately show ?thesis by (simp only: simp_thms)
qed

theorem currents_partition_total_up_to_rounding_witness:
  "(200 :: real) \<le> 200 \<and> (200 :: real) \<le> 1300 \<and>
   (2000 :: int) \<le> warm_temp \<and> adjust_lamps 200 2000 = (0, 13421773 / 2 ^ 26) \<and>
   cool_temp \<le> (7000 :: int) \<and> adjust_lamps 200 7000 = (13421773 / 2 ^ 26, 0) \<and>
   f32 (lux_to_amps * 200) = 13421773 / 2 ^ 26"
proof -
  have w: "(2000 :: int) \<le> warm_temp" and c: "cool_temp \<le> (7000 :: int)"
    by (simp_all add: warm_temp_def cool_temp_def)
  have h: "(200 :: real) \<le> 200" "(200 :: real) \<le> 1300" by simp_all
  from currents_partition_total_up_to_rounding [OF h, of 2000]
    currents_partition_total_up_to_rounding [OF h, of 7000]
  show ?thesis using w c by (simp add: product_200 mult.commute)
qed

text \<open>
  At 200 lux and 4500 kelvin the two currents add up to neither the real nor the
  single-precision product, whether they are added exactly or in single precision.
\<close>

theorem currents_200_4500_not_exact:
  "fst (adjust_lamps 200 4500) + snd (adjust_lamps 200 4500) \<noteq> lux_to_amps * 200 \<and>
   fst (adjust_lamps 200 4500) + snd (adjust_lamps 200 4500) \<noteq> f32 (lux_to_amps * 200) \<and>
   f32 (fst (adjust_lamps 200 4500) + snd (adjust_lamps 200 4500)) \<noteq> f32 (lux_to_amps * 200)"
proof -
  have "f32 (6710887 / 2 ^ 25) = 6710887 / 2 ^ 25" by (simp add: fl_eval)
  then show ?thesis by (simp add: adjust_lamps_200_4500 product_200)
qed

end
